theory Spec2Isabelle
  imports Complex_Main
begin

section \<open>Tensors and errors\<close>

text \<open>
  Tensors are nested lists in row-major order; a well-formed tensor is rectangular.
  The size of an inner axis is read off the first entry, so a tensor with an empty outer
  axis has inner sizes that read as 0. Exceptions of the Python code are values of type
  \<open>error\<close>, and a function that can raise returns \<open>error + 'a\<close> with \<open>Inl\<close> for
  the exception.
\<close>

datatype error = IndexError | KeyError string | RuntimeError | ValueError

type_synonym 'a tensor2 = "'a list list"
type_synonym 'a tensor3 = "'a list list list"
type_synonym 'a tensor4 = "'a list list list list"

definition shape1 :: "'a tensor2 \<Rightarrow> nat" where
  "shape1 t = (case t of [] \<Rightarrow> 0 | r # _ \<Rightarrow> length r)"

definition shape2 :: "'a tensor3 \<Rightarrow> nat" where
  "shape2 t = (case t of [] \<Rightarrow> 0 | r # _ \<Rightarrow> shape1 r)"

definition rect2 :: "nat \<Rightarrow> nat \<Rightarrow> 'a tensor2 \<Rightarrow> bool" where
  "rect2 n m t \<longleftrightarrow> length t = n \<and> list_all (\<lambda>r. length r = m) t"

definition rect3 :: "nat \<Rightarrow> nat \<Rightarrow> nat \<Rightarrow> 'a tensor3 \<Rightarrow> bool" where
  "rect3 b n m t \<longleftrightarrow> length t = b \<and> list_all (rect2 n m) t"

definition rect4 :: "nat \<Rightarrow> nat \<Rightarrow> nat \<Rightarrow> nat \<Rightarrow> 'a tensor4 \<Rightarrow> bool" where
  "rect4 b n m k t \<longleftrightarrow> length t = b \<and> list_all (rect3 n m k) t"

text \<open>\<open>.long()\<close> on a float tensor truncates towards zero.\<close>

definition long :: "real \<Rightarrow> int" where
  "long x = (if 0 \<le> x then \<lfloor>x\<rfloor> else \<lceil>x\<rceil>)"

text \<open>Python and torch indexing: a negative index counts from the end, anything else
  outside the axis raises.\<close>

definition py_index :: "nat \<Rightarrow> int \<Rightarrow> error + nat" where
  "py_index n i =
     (let j = (if i < 0 then i + int n else i)
      in if 0 \<le> j \<and> j < int n then Inr (nat j) else Inl IndexError)"

section \<open>PGPEncoder.build_adj_mat\<close>

text \<open>\<open>torch.diag(torch.ones(max_nodes)).unsqueeze(0).repeat(batch_size, 1, 1).bool()\<close>\<close>

definition eye :: "nat \<Rightarrow> bool tensor2" where
  "eye n = map (\<lambda>i. map (\<lambda>j. i = j) [0..<n]) [0..<n]"

definition identity_adj :: "nat \<Rightarrow> nat \<Rightarrow> bool tensor3" where
  "identity_adj batch_size max_nodes = replicate batch_size (eye max_nodes)"

text \<open>\<open>torch.arange(max_nodes).unsqueeze(0).unsqueeze(2).repeat(batch_size, 1, max_edges)\<close>:
  entry \<open>[b, i, k]\<close> is \<open>i\<close>. \<open>dummy_vals\<close> is its \<open>.float()\<close>.\<close>

definition src_indices :: "nat \<Rightarrow> nat \<Rightarrow> nat \<Rightarrow> nat tensor3" where
  "src_indices batch_size max_nodes max_edges =
     replicate batch_size (map (\<lambda>i. replicate max_edges i) [0..<max_nodes])"

definition dummy_vals :: "nat \<Rightarrow> nat \<Rightarrow> nat \<Rightarrow> real tensor3" where
  "dummy_vals batch_size max_nodes max_edges =
     map (map (map real)) (src_indices batch_size max_nodes max_edges)"

text \<open>\<open>torch.arange(batch_size).unsqueeze(1).unsqueeze(2).repeat(1, max_nodes, max_edges)\<close>:
  entry \<open>[b, i, k]\<close> is \<open>b\<close>.\<close>

definition batch_indices :: "nat \<Rightarrow> nat \<Rightarrow> nat \<Rightarrow> nat tensor3" where
  "batch_indices batch_size max_nodes max_edges =
     map (\<lambda>b. replicate max_nodes (replicate max_edges b)) [0..<batch_size]"

text \<open>\<open>x[mask] = y[mask]\<close> for a boolean mask: the mask must have the shape of the indexed
  tensor (torch raises IndexError otherwise); the selected entries of \<open>x\<close> are overwritten
  in place by the entries of \<open>y\<close> at the same positions.\<close>

definition same_shape3 :: "'a tensor3 \<Rightarrow> 'b tensor3 \<Rightarrow> bool" where
  "same_shape3 x y \<longleftrightarrow> map (map length) x = map (map length) y"

definition assign_where :: "real tensor3 \<Rightarrow> bool tensor3 \<Rightarrow> real tensor3 \<Rightarrow> error + real tensor3" where
  "assign_where x msk y =
     (if same_shape3 x msk \<and> same_shape3 y msk
      then Inr (map2 (\<lambda>xr (mr, yr). map2 (\<lambda>xe (me, ye). map2 (\<lambda>xv (mv, yv). if mv then yv else xv)
                    xe (zip me ye)) xr (zip mr yr)) x (zip msk y))
      else Inl IndexError)"

text \<open>\<open>edge_type == 0\<close>\<close>

definition is_no_edge :: "int tensor3 \<Rightarrow> bool tensor3" where
  "is_no_edge edge_type = map (map (map (\<lambda>t. t = 0))) edge_type"

text \<open>\<open>adj_mat[b, i, d] = True\<close> for one index triple.\<close>

definition put_true :: "bool tensor3 \<Rightarrow> nat \<times> nat \<times> int \<Rightarrow> error + bool tensor3" where
  "put_true adj_mat t =
     (case t of (b, i, d) \<Rightarrow>
        if b < length adj_mat \<and> i < length (adj_mat ! b)
        then (case py_index (length (adj_mat ! b ! i)) d of
                Inl e \<Rightarrow> Inl e
              | Inr j \<Rightarrow> Inr (adj_mat[b := (adj_mat ! b)[i := (adj_mat ! b ! i)[j := True]]]))
        else Inl IndexError)"

fun index_put_true :: "bool tensor3 \<Rightarrow> (nat \<times> nat \<times> int) list \<Rightarrow> error + bool tensor3" where
  "index_put_true adj_mat [] = Inr adj_mat"
| "index_put_true adj_mat (t # ts) =
     (case put_true adj_mat t of Inl e \<Rightarrow> Inl e | Inr adj_mat' \<Rightarrow> index_put_true adj_mat' ts)"

text \<open>The index triples of
  \<open>adj_mat[batch_indices[:, :, :-1], src_indices[:, :, :-1], s_next[:, :, :-1].long()]\<close>:
  one per edge slot \<open>k\<close> of \<open>[:-1]\<close>, that is \<open>k < max_edges - 1\<close>.\<close>

definition edge_triples :: "nat \<Rightarrow> nat \<Rightarrow> nat \<Rightarrow> real tensor3 \<Rightarrow> (nat \<times> nat \<times> int) list" where
  "edge_triples batch_size max_nodes max_edges s_next =
     concat (map (\<lambda>b. concat (map (\<lambda>i. map (\<lambda>k.
        (batch_indices batch_size max_nodes max_edges ! b ! i ! k,
         src_indices batch_size max_nodes max_edges ! b ! i ! k,
         long (s_next ! b ! i ! k))) [0..<max_edges - 1]) [0..<max_nodes])) [0..<batch_size])"

text \<open>\<open>torch.transpose(adj_mat, 1, 2)\<close> and the element-wise \<open>|\<close>.\<close>

definition transpose12 :: "nat \<Rightarrow> 'a tensor3 \<Rightarrow> 'a tensor3" where
  "transpose12 n t = map (\<lambda>m. map (\<lambda>j. map (\<lambda>i. m ! i ! j) [0..<n]) [0..<n]) t"

definition or3 :: "bool tensor3 \<Rightarrow> bool tensor3 \<Rightarrow> bool tensor3" where
  "or3 x y = map2 (map2 (map2 (\<or>))) x y"

text \<open>
  \<open>build_adj_mat(s_next, edge_type)\<close>. The assignment \<open>s_next[edge_type == 0] = ...\<close> writes
  into the caller's tensor, so the model returns the updated \<open>s_next\<close> beside the
  adjacency matrix.
\<close>

definition build_adj_mat :: "real tensor3 \<Rightarrow> int tensor3 \<Rightarrow> error + (real tensor3 \<times> bool tensor3)" where
  "build_adj_mat s_next edge_type =
     (let batch_size = length s_next;
          max_nodes = shape1 s_next;
          max_edges = shape2 s_next;
          adj_mat = identity_adj batch_size max_nodes
      in case assign_where s_next (is_no_edge edge_type)
                (dummy_vals batch_size max_nodes max_edges) of
           Inl e \<Rightarrow> Inl e
         | Inr s_next' \<Rightarrow>
             (case index_put_true adj_mat
                     (edge_triples batch_size max_nodes max_edges s_next') of
                Inl e \<Rightarrow> Inl e
              | Inr adj_mat' \<Rightarrow>
                  Inr (s_next', or3 adj_mat' (transpose12 max_nodes adj_mat'))))"

text \<open>The adjacency matrix as the specification describes it, entry by entry: a self-edge,
  or an edge marked from a slot other than the last of the source node, where a slot of
  type 0 (no edge) points at its own source node; the matrix is then OR-ed with its
  transpose.\<close>

definition spec_s_next :: "nat \<Rightarrow> nat \<Rightarrow> nat \<Rightarrow> real tensor3 \<Rightarrow> int tensor3 \<Rightarrow> real tensor3" where
  "spec_s_next B N E s_next edge_type =
     map (\<lambda>b. map (\<lambda>i. map (\<lambda>k.
        if edge_type ! b ! i ! k = 0 then real i else s_next ! b ! i ! k) [0..<E]) [0..<N]) [0..<B]"

definition spec_marked :: "nat \<Rightarrow> real tensor3 \<Rightarrow> nat \<Rightarrow> nat \<Rightarrow> nat \<Rightarrow> bool" where
  "spec_marked E s b i j \<longleftrightarrow> (\<exists>k \<in> set [0..<E - 1]. long (s ! b ! i ! k) = int j)"

definition spec_adjacency :: "nat \<Rightarrow> nat \<Rightarrow> nat \<Rightarrow> real tensor3 \<Rightarrow> int tensor3 \<Rightarrow> bool tensor3" where
  "spec_adjacency B N E s_next edge_type =
     (let s = spec_s_next B N E s_next edge_type
      in map (\<lambda>b. map (\<lambda>i. map (\<lambda>j.
           (i = j \<or> spec_marked E s b i j) \<or> (j = i \<or> spec_marked E s b j i))
           [0..<N]) [0..<N]) [0..<B])"

text \<open>An entry \<open>[b, i, j]\<close> that the indexed assignment of \<open>build_adj_mat\<close> sets.\<close>

definition marked :: "nat \<Rightarrow> nat \<Rightarrow> real tensor3 \<Rightarrow> nat \<Rightarrow> nat \<Rightarrow> nat \<Rightarrow> bool" where
  "marked N E s b i j \<longleftrightarrow> (\<exists>k<E - 1. py_index N (long (s ! b ! i ! k)) = Inr j)"

section \<open>PGPEncoder.variable_size_gru_encode\<close>

text \<open>
  A \<open>torch.nn.GRU\<close> is a parameter of the model: its attribute \<open>hidden_size\<close>, and
  \<open>run\<close>, which stands for \<open>pack_padded_sequence(batch, lengths, batch_first=True,
  enforce_sorted=False)\<close> followed by the recurrent unit and \<open>.squeeze(0)\<close> of its final
  hidden state: from a batch of sequences \<open>[n, T, D]\<close> and their lengths it gives one
  hidden state per sequence, \<open>[n, hidden_size]\<close>, or raises. \<open>gru_returns\<close> says that a
  call returns such a tensor.
\<close>

record gru =
  hidden_size :: nat
  run :: "real tensor3 \<Rightarrow> real list \<Rightarrow> error + real tensor2"

definition gru_returns :: "gru \<Rightarrow> real tensor3 \<Rightarrow> real list \<Rightarrow> bool" where
  "gru_returns g xs lens \<longleftrightarrow>
     (\<exists>h. run g xs lens = Inr h \<and> rect2 (length xs) (hidden_size g) h)"

text \<open>\<open>t[:, :, :, 0]\<close>: IndexError when the last axis is empty.\<close>

definition select0 :: "'a tensor4 \<Rightarrow> error + 'a tensor3" where
  "select0 t =
     (if list_all (list_all (list_all (\<lambda>r. r \<noteq> []))) t
      then Inr (map (map (map hd)) t) else Inl IndexError)"

text \<open>\<open>(~m0.bool()).any(dim=-1)\<close>: an entity is kept when some time step has mask 0.\<close>

definition masks_for_batching :: "real tensor3 \<Rightarrow> bool tensor2" where
  "masks_for_batching m0 = map (map (list_ex (\<lambda>v. v = 0))) m0"

text \<open>\<open>torch.sum(1 - m0, dim=-1)\<close> and \<open>seq_lens[seq_lens != 0]\<close>.\<close>

definition seq_lens :: "real tensor3 \<Rightarrow> real tensor2" where
  "seq_lens m0 = map (map (\<lambda>steps. sum_list (map (\<lambda>v. 1 - v) steps))) m0"

definition seq_lens_batched :: "real tensor2 \<Rightarrow> real list" where
  "seq_lens_batched lens = filter (\<lambda>l. l \<noteq> 0) (concat lens)"

text \<open>Broadcasting of one axis: equal sizes, or one of them 1 and then repeated.\<close>

definition bdim :: "nat \<Rightarrow> nat \<Rightarrow> nat option" where
  "bdim a b = (if a = b then Some a else if a = 1 then Some b else if b = 1 then Some a else None)"

definition expand :: "nat \<Rightarrow> 'a list \<Rightarrow> 'a list" where
  "expand n xs = (if length xs = n then xs else (case xs of [x] \<Rightarrow> replicate n x | _ \<Rightarrow> xs))"

text \<open>
  \<open>torch.masked_select(feat_embedding, masks_for_batching).view(-1, T, D)\<close> where the mask
  has shape \<open>[B, M, 1, 1]\<close>: the mask is broadcast against the features, it is constant
  over the last two axes, so the selected elements are the whole \<open>[T, D]\<close> blocks of the
  kept entities, in row-major order. The model covers tensors with at least one time
  step and one feature, for which \<open>view(-1, T, D)\<close> is defined.
\<close>

definition select_rows :: "'a list \<Rightarrow> bool list \<Rightarrow> 'a list" where
  "select_rows xs ms = concat (map2 (\<lambda>x m. if m then [x] else []) xs ms)"

definition masked_select_blocks :: "'a tensor3 \<Rightarrow> bool tensor2 \<Rightarrow> error + 'a tensor2" where
  "masked_select_blocks x m =
     (case (bdim (length x) (length m), bdim (shape1 x) (shape1 m)) of
        (Some b, Some n) \<Rightarrow>
          Inr (concat (map2 (\<lambda>xr mr. select_rows (expand n xr) (expand n mr))
                 (expand b x) (expand b m)))
      | _ \<Rightarrow> Inl RuntimeError)"

text \<open>
  \<open>self.masked_scatter(mask, source)\<close> for a mask of the shape of \<open>self\<close>: the elements
  of \<open>source\<close>, read in row-major order, are written one after the other to the positions
  where the mask is True; torch raises when \<open>source\<close> has fewer elements than the mask
  has True entries. \<open>scatter_list\<close> walks one axis and hands the rest of the source on.
\<close>

definition scatter0 :: "bool \<Rightarrow> 'a \<Rightarrow> 'a list \<Rightarrow> 'a \<times> 'a list" where
  "scatter0 m x src = (if m then (case src of [] \<Rightarrow> (x, []) | v # src' \<Rightarrow> (v, src')) else (x, src))"

fun scatter_list :: "('m \<Rightarrow> 'x \<Rightarrow> 's \<Rightarrow> 'x \<times> 's) \<Rightarrow> 'm list \<Rightarrow> 'x list \<Rightarrow> 's \<Rightarrow> 'x list \<times> 's" where
  "scatter_list f (m # ms) (x # xs) s =
     (case f m x s of (x', s') \<Rightarrow>
        (case scatter_list f ms xs s' of (xs', s'') \<Rightarrow> (x' # xs', s'')))"
| "scatter_list f _ _ s = ([], s)"

definition count_true :: "bool list \<Rightarrow> nat" where
  "count_true ms = length (filter (\<lambda>m. m) ms)"

definition masked_scatter3 :: "'a tensor3 \<Rightarrow> bool tensor3 \<Rightarrow> 'a list \<Rightarrow> error + 'a tensor3" where
  "masked_scatter3 self msk source =
     (if count_true (concat (concat msk)) \<le> length source
      then Inr (fst (scatter_list (scatter_list (scatter_list scatter0)) msk self source))
      else Inl RuntimeError)"

text \<open>\<open>encoding_batched.shape[-1]\<close>; a GRU gives rows of its hidden size.\<close>

definition last_dim :: "gru \<Rightarrow> real tensor2 \<Rightarrow> nat" where
  "last_dim g h = (case h of [] \<Rightarrow> hidden_size g | r # _ \<Rightarrow> length r)"

definition variable_size_gru_encode :: "real tensor4 \<Rightarrow> real tensor4 \<Rightarrow> gru \<Rightarrow> error + real tensor3" where
  "variable_size_gru_encode feat_embedding masks g =
     (case select0 masks of
        Inl e \<Rightarrow> Inl e
      | Inr m0 \<Rightarrow>
          (let masks_for_batching = masks_for_batching m0
           in case masked_select_blocks feat_embedding masks_for_batching of
                Inl e \<Rightarrow> Inl e
              | Inr feat_embedding_batched \<Rightarrow>
                  (let seq_lens_batched = seq_lens_batched (seq_lens m0)
                   in if length seq_lens_batched \<noteq> 0
                      then (case run g feat_embedding_batched seq_lens_batched of
                              Inl e \<Rightarrow> Inl e
                            | Inr encoding_batched \<Rightarrow>
                                (let masks_for_scattering =
                                       map (map (replicate (last_dim g encoding_batched)))
                                         masks_for_batching;
                                     encoding = map (map (map (\<lambda>_. 0))) masks_for_scattering
                                 in masked_scatter3 encoding masks_for_scattering
                                      (concat encoding_batched)))
                      else Inr (replicate (length feat_embedding)
                                  (replicate (shape1 feat_embedding)
                                     (replicate (hidden_size g) 0))))))"

text \<open>The entities that have a valid time step, \<open>[B, M]\<close>, and the compaction of a
  tensor \<open>[B, M, ...]\<close> to the entries of these entities in row-major order.\<close>

definition valid_entities :: "real tensor4 \<Rightarrow> bool tensor2" where
  "valid_entities masks = masks_for_batching (map (map (map hd)) masks)"

definition compact_rows :: "'a tensor2 \<Rightarrow> bool tensor2 \<Rightarrow> 'a list" where
  "compact_rows x v = concat (map2 select_rows x v)"

definition compact_lens :: "real tensor4 \<Rightarrow> real list" where
  "compact_lens masks = seq_lens_batched (seq_lens (map (map (map hd)) masks))"

text \<open>A recurrent unit for the examples: its hidden state has size 1 and holds the sum of
  the features of the first \<open>length\<close> time steps of the sequence.\<close>

definition example_gru :: gru where
  "example_gru = \<lparr>hidden_size = 1,
     run = (\<lambda>xs lens. Inr (map2 (\<lambda>x l. [sum_list (concat (take (nat \<lfloor>l\<rfloor>) x))]) xs lens))\<rparr>"

section \<open>Layers shared by the encoder and the aggregator\<close>

definition bind_err :: "error + 'a \<Rightarrow> ('a \<Rightarrow> error + 'b) \<Rightarrow> error + 'b" where
  "bind_err r f = (case r of Inl e \<Rightarrow> Inl e | Inr x \<Rightarrow> f x)"

fun map_err :: "('a \<Rightarrow> error + 'b) \<Rightarrow> 'a list \<Rightarrow> error + 'b list" where
  "map_err f [] = Inr []"
| "map_err f (x # xs) =
     (case f x of Inl e \<Rightarrow> Inl e
      | Inr y \<Rightarrow> (case map_err f xs of Inl e \<Rightarrow> Inl e | Inr ys \<Rightarrow> Inr (y # ys)))"

text \<open>\<open>nn.Linear\<close>: one weight row and one bias per output feature; torch raises when the
  input does not have \<open>in_features\<close> entries.\<close>

record linear =
  weight :: "real list list"
  bias :: "real list"

definition linear_apply :: "linear \<Rightarrow> real list \<Rightarrow> error + real list" where
  "linear_apply l x =
     (if list_all (\<lambda>row. length row = length x) (weight l)
      then Inr (map2 (\<lambda>row b. sum_list (map2 (*) row x) + b) (weight l) (bias l))
      else Inl RuntimeError)"

definition linear_ok :: "linear \<Rightarrow> nat \<Rightarrow> nat \<Rightarrow> bool" where
  "linear_ok l n_in n_out \<longleftrightarrow> rect2 n_out n_in (weight l) \<and> length (bias l) = n_out"

text \<open>\<open>nn.LeakyReLU()\<close> with the default negative slope 0.01.\<close>

definition leaky_relu :: "real \<Rightarrow> real" where
  "leaky_relu x = (if 0 \<le> x then x else x / 100)"

text \<open>\<open>torch.cat((x, y), dim=2)\<close>: the sizes of the other axes must agree.\<close>

definition cat2 :: "'a tensor3 \<Rightarrow> 'a tensor3 \<Rightarrow> error + 'a tensor3" where
  "cat2 x y =
     (if map length x = map length y
      then Inr (map2 (map2 (@)) x y) else Inl RuntimeError)"

section \<open>PGPEncoder.forward\<close>

text \<open>
  The dictionary of encodings that the encoder returns is a record; the keys that the
  encoder only sets when \<open>init_node\<close> is among its inputs are optional. The entries that
  are always \<open>None\<close> (\<open>map\<close>, \<open>vehicles\<close>, \<open>pedestrians\<close> and their masks) are left out.
\<close>

record encodings =
  target_agent_encoding :: "real tensor2"
  combined :: "real tensor3"
  combined_masks :: "real tensor2"
  enc_init_node :: "real tensor2 option"
  enc_node_seq_gt :: "real tensor2 option"
  enc_s_next :: "real tensor3 option"
  enc_edge_type :: "int tensor3 option"

text \<open>
  The input dictionary. \<open>s_next\<close> and \<open>edge_type\<close> are optional entries of
  \<open>map_representation\<close>, \<open>init_node\<close> and \<open>node_seq_gt\<close> optional entries of the
  dictionary itself; a missing key that the code reads raises KeyError.
\<close>

record inputs =
  target_agent_representation :: "real tensor3"
  lane_node_feats :: "real tensor4"
  lane_node_masks :: "real tensor4"
  in_s_next :: "real tensor3 option"
  in_edge_type :: "int tensor3 option"
  vehicles :: "real tensor4"
  vehicle_masks :: "real tensor4"
  pedestrians :: "real tensor4"
  pedestrian_masks :: "real tensor4"
  agent_node_masks_vehicles :: "real tensor3"
  agent_node_masks_pedestrians :: "real tensor3"
  in_init_node :: "real tensor2 option"
  in_node_seq_gt :: "real tensor2 option"

text \<open>
  \<open>nn.MultiheadAttention\<close> is a parameter: from queries \<open>[L, B, E]\<close>, keys and values
  \<open>[S, B, E]\<close> and an attention mask it gives the attended values \<open>[L, B, E]\<close> (the first
  component of what torch returns), or raises. The agent-node attention gets the float
  masks of the inputs, a GAT layer the complement of the adjacency matrix.
\<close>

type_synonym 'm attention =
  "real tensor3 \<Rightarrow> real tensor3 \<Rightarrow> real tensor3 \<Rightarrow> 'm tensor3 \<Rightarrow> error + real tensor3"

record gat_layer =
  gat_query_emb :: linear
  gat_key_emb :: linear
  gat_val_emb :: linear
  gat_att :: "bool attention"

record pgp_encoder =
  target_agent_emb :: linear
  target_agent_enc :: gru
  node_emb :: linear
  node_encoder :: gru
  nbr_emb :: linear
  nbr_enc :: gru
  query_emb :: linear
  key_emb :: linear
  val_emb :: linear
  a_n_att :: "real attention"
  mix :: linear
  gat :: "gat_layer list"

text \<open>A linear layer on the last axis of a tensor of rank 3 or 4.\<close>

definition linear3 :: "linear \<Rightarrow> real tensor3 \<Rightarrow> error + real tensor3" where
  "linear3 l x = map_err (map_err (linear_apply l)) x"

definition linear4 :: "linear \<Rightarrow> real tensor4 \<Rightarrow> error + real tensor4" where
  "linear4 l x = map_err (map_err (map_err (linear_apply l))) x"

text \<open>\<open>torch.cat((x, c * torch.ones_like(x[:, :, :, 0:1])), dim=-1)\<close>: the slice \<open>0:1\<close> has
  one entry, or none when the last axis is empty.\<close>

definition append_flag :: "real \<Rightarrow> real tensor4 \<Rightarrow> real tensor4" where
  "append_flag c x = map (map (map (\<lambda>v. v @ map (\<lambda>_. c) (take 1 v)))) x"

text \<open>\<open>torch.cat((x, y), dim=1)\<close>: the batch sizes and the sizes of the last axis must
  agree.\<close>

definition cat1 :: "'a tensor3 \<Rightarrow> 'a tensor3 \<Rightarrow> error + 'a tensor3" where
  "cat1 x y =
     (if length x = length y \<and> length (remdups (concat (map (map length) (x @ y)))) \<le> 1
      then Inr (map2 (@) x y) else Inl RuntimeError)"

text \<open>\<open>x.permute(1, 0, 2)\<close>\<close>

definition permute102 :: "'a tensor3 \<Rightarrow> 'a tensor3" where
  "permute102 x = map (\<lambda>j. map (\<lambda>i. x ! i ! j) [0..<length x]) [0..<shape1 x]"

text \<open>\<open>x += y\<close> in place: \<open>y\<close> must have the shape of \<open>x\<close>.\<close>

definition add3 :: "real tensor3 \<Rightarrow> real tensor3 \<Rightarrow> error + real tensor3" where
  "add3 x y =
     (if same_shape3 x y then Inr (map2 (map2 (map2 (+))) x y) else Inl RuntimeError)"

text \<open>\<open>GAT.forward(node_encodings, adj_mat)\<close>\<close>

definition gat_forward :: "gat_layer \<Rightarrow> real tensor3 \<Rightarrow> bool tensor3 \<Rightarrow> error + real tensor3" where
  "gat_forward layer node_encodings adj_mat =
     bind_err (linear3 (gat_query_emb layer) (permute102 node_encodings)) (\<lambda>queries.
     bind_err (linear3 (gat_key_emb layer) (permute102 node_encodings)) (\<lambda>keys.
     bind_err (linear3 (gat_val_emb layer) (permute102 node_encodings)) (\<lambda>vals.
     bind_err (gat_att layer queries keys vals (map (map (map Not)) adj_mat)) (\<lambda>att_op.
     Inr (permute102 att_op)))))"

text \<open>\<open>for gat_layer in self.gat: lane_node_enc += gat_layer(lane_node_enc, adj_mat)\<close>\<close>

fun gat_layers :: "gat_layer list \<Rightarrow> real tensor3 \<Rightarrow> bool tensor3 \<Rightarrow> error + real tensor3" where
  "gat_layers [] lane_node_enc adj_mat = Inr lane_node_enc"
| "gat_layers (layer # layers) lane_node_enc adj_mat =
     bind_err (gat_forward layer lane_node_enc adj_mat) (\<lambda>refined.
     bind_err (add3 lane_node_enc refined) (\<lambda>lane_node_enc'.
     gat_layers layers lane_node_enc' adj_mat))"

text \<open>The GRU encoding of the lane nodes, before the agent-node attention.\<close>

definition lane_node_encoding :: "pgp_encoder \<Rightarrow> inputs \<Rightarrow> error + real tensor3" where
  "lane_node_encoding enc inp =
     bind_err (linear4 (node_emb enc) (lane_node_feats inp)) (\<lambda>emb.
     variable_size_gru_encode (map (map (map (map leaky_relu))) emb) (lane_node_masks inp)
       (node_encoder enc))"

text \<open>The encoding of one kind of surrounding agents, with the flag that tells vehicles
  (0) from pedestrians (1).\<close>

definition nbr_encoding :: "pgp_encoder \<Rightarrow> real \<Rightarrow> real tensor4 \<Rightarrow> real tensor4 \<Rightarrow> error + real tensor3" where
  "nbr_encoding enc flag feats masks =
     bind_err (linear4 (nbr_emb enc) (append_flag flag feats)) (\<lambda>emb.
     variable_size_gru_encode (map (map (map (map leaky_relu))) emb) masks (nbr_enc enc))"

text \<open>The node mask that the encoder returns: 1 for a node without a valid pose.\<close>

definition node_masks_of :: "real tensor4 \<Rightarrow> error + real tensor2" where
  "node_masks_of masks =
     bind_err (select0 masks) (\<lambda>m0.
     Inr (map (map (\<lambda>v. if \<not> v then 1 else 0)) (masks_for_batching m0)))"

definition lookup_key :: "string \<Rightarrow> 'a option \<Rightarrow> error + 'a" where
  "lookup_key k v = (case v of None \<Rightarrow> Inl (KeyError k) | Some x \<Rightarrow> Inr x)"

text \<open>
  \<open>PGPEncoder.forward(inputs)\<close>. \<open>build_adj_mat\<close> writes into the tensor
  \<open>inputs['map_representation']['s_next']\<close>; the model returns the input dictionary with
  that entry updated beside the encodings. The target agent GRU runs on the full
  sequences.
\<close>

definition pgp_encoder_forward :: "pgp_encoder \<Rightarrow> inputs \<Rightarrow> error + (encodings \<times> inputs)" where
  "pgp_encoder_forward enc inp =
     bind_err (linear3 (target_agent_emb enc) (target_agent_representation inp)) (\<lambda>t_emb.
     let target_agent_embedding = map (map (map leaky_relu)) t_emb
     in bind_err (run (target_agent_enc enc) target_agent_embedding
                    (map (\<lambda>s. real (length s)) target_agent_embedding)) (\<lambda>target_agent_enc.
     bind_err (lane_node_encoding enc inp) (\<lambda>lane_node_enc.
     bind_err (nbr_encoding enc 0 (vehicles inp) (vehicle_masks inp)) (\<lambda>nbr_vehicle_enc.
     bind_err (nbr_encoding enc 1 (pedestrians inp) (pedestrian_masks inp)) (\<lambda>nbr_ped_enc.
     bind_err (cat1 nbr_vehicle_enc nbr_ped_enc) (\<lambda>nbr_encodings.
     bind_err (linear3 (query_emb enc) lane_node_enc) (\<lambda>q.
     bind_err (linear3 (key_emb enc) nbr_encodings) (\<lambda>k.
     bind_err (linear3 (val_emb enc) nbr_encodings) (\<lambda>v.
     bind_err (cat2 (agent_node_masks_vehicles inp) (agent_node_masks_pedestrians inp)) (\<lambda>attn_masks.
     bind_err (a_n_att enc (permute102 q) (permute102 k) (permute102 v) attn_masks) (\<lambda>att.
     let att_op = permute102 att
     in bind_err (cat2 lane_node_enc att_op) (\<lambda>both.
     bind_err (linear3 (mix enc) both) (\<lambda>mixed.
     let lane_node_enc1 = map (map (map leaky_relu)) mixed
     in bind_err (lookup_key ''s_next'' (in_s_next inp)) (\<lambda>s_next.
     bind_err (lookup_key ''edge_type'' (in_edge_type inp)) (\<lambda>edge_type.
     bind_err (build_adj_mat s_next edge_type) (\<lambda>(s_next', adj_mat).
     let inp' = inp\<lparr>in_s_next := Some s_next'\<rparr>
     in bind_err (gat_layers (gat enc) lane_node_enc1 adj_mat) (\<lambda>lane_node_enc2.
     bind_err (node_masks_of (lane_node_masks inp)) (\<lambda>node_masks.
     let encodings = \<lparr>target_agent_encoding = target_agent_enc,
                       combined = lane_node_enc2,
                       combined_masks = node_masks,
                       enc_init_node = None, enc_node_seq_gt = None,
                       enc_s_next = None, enc_edge_type = None\<rparr>
     in if in_init_node inp' \<noteq> None
        then bind_err (lookup_key ''node_seq_gt'' (in_node_seq_gt inp')) (\<lambda>gt.
             Inr (encodings\<lparr>enc_init_node := in_init_node inp',
                            enc_node_seq_gt := Some gt,
                            enc_s_next := in_s_next inp',
                            enc_edge_type := in_edge_type inp'\<rparr>, inp'))
        else Inr (encodings, inp')))))))))))))))))))"

text \<open>An encoder for the examples: every layer has one input and one output feature,
  the mix layer keeps the node encoding and adds the bias 1, the attention returns its
  queries, and there is no GAT layer.\<close>

definition unit_linear :: linear where
  "unit_linear = \<lparr>weight = [[1]], bias = [0]\<rparr>"

definition example_encoder :: pgp_encoder where
  "example_encoder =
     \<lparr>target_agent_emb = unit_linear, target_agent_enc = example_gru,
      node_emb = unit_linear, node_encoder = example_gru,
      nbr_emb = \<lparr>weight = [[1, 1]], bias = [0]\<rparr>, nbr_enc = example_gru,
      query_emb = unit_linear, key_emb = unit_linear, val_emb = unit_linear,
      a_n_att = (\<lambda>q k v m. Inr q),
      mix = \<lparr>weight = [[1, 0]], bias = [1]\<rparr>,
      gat = []\<rparr>"

definition example_inputs :: inputs where
  "example_inputs =
     \<lparr>target_agent_representation = [[[1], [2]]],
      lane_node_feats = [[[[1], [2]], [[3], [4]]]],
      lane_node_masks = [[[[0], [0]], [[1], [1]]]],
      in_s_next = Some [[[1, 0], [0, 0]]],
      in_edge_type = Some [[[1, 0], [0, 0]]],
      vehicles = [[[[1], [1]]]],
      vehicle_masks = [[[[0], [0]]]],
      pedestrians = [[[[2], [2]]]],
      pedestrian_masks = [[[[0], [1]]]],
      agent_node_masks_vehicles = [[[0], [0]]],
      agent_node_masks_pedestrians = [[[0], [0]]],
      in_init_node = Some [[1, 0]],
      in_node_seq_gt = Some [[0, 1, 3]]\<rparr>"

section \<open>GoalConditioned\<close>

text \<open>
  Log-probabilities are floats that can be infinite or NaN. Finite values are idealised
  as reals; \<open>xreal\<close> adds the IEEE special values, with the arithmetic that \<open>torch.log\<close>,
  \<open>torch.exp\<close>, \<open>+\<close>, \<open>-\<close> and \<open>max\<close> have on them.
\<close>

datatype xreal = Fin real | PInf | NInf | NaN

fun xlog :: "xreal \<Rightarrow> xreal" where
  "xlog (Fin x) = (if 0 < x then Fin (ln x) else if x = 0 then NInf else NaN)"
| "xlog PInf = PInf"
| "xlog NInf = NaN"
| "xlog NaN = NaN"

fun xexp :: "xreal \<Rightarrow> xreal" where
  "xexp (Fin x) = Fin (exp x)"
| "xexp PInf = PInf"
| "xexp NInf = Fin 0"
| "xexp NaN = NaN"

fun xadd :: "xreal \<Rightarrow> xreal \<Rightarrow> xreal" where
  "xadd NaN _ = NaN"
| "xadd _ NaN = NaN"
| "xadd (Fin a) (Fin b) = Fin (a + b)"
| "xadd PInf NInf = NaN"
| "xadd NInf PInf = NaN"
| "xadd PInf _ = PInf"
| "xadd _ PInf = PInf"
| "xadd NInf _ = NInf"
| "xadd _ NInf = NInf"

fun xneg :: "xreal \<Rightarrow> xreal" where
  "xneg (Fin a) = Fin (- a)"
| "xneg PInf = NInf"
| "xneg NInf = PInf"
| "xneg NaN = NaN"

definition xsub :: "xreal \<Rightarrow> xreal \<Rightarrow> xreal" where
  "xsub a b = xadd a (xneg b)"

fun xmax :: "xreal \<Rightarrow> xreal \<Rightarrow> xreal" where
  "xmax NaN _ = NaN"
| "xmax _ NaN = NaN"
| "xmax PInf _ = PInf"
| "xmax _ PInf = PInf"
| "xmax NInf b = b"
| "xmax a NInf = a"
| "xmax (Fin a) (Fin b) = Fin (max a b)"

definition xsum :: "xreal list \<Rightarrow> xreal" where
  "xsum xs = foldr xadd xs (Fin 0)"

definition xmax_list :: "xreal list \<Rightarrow> xreal" where
  "xmax_list xs = foldr xmax xs NInf"

text \<open>\<open>nn.LogSoftmax\<close> along one axis, as torch computes it: the maximum is subtracted
  first, then the logarithm of the sum of the exponentials.\<close>

definition log_softmax :: "xreal list \<Rightarrow> xreal list" where
  "log_softmax xs =
     (let m = xmax_list xs;
          shifted = map (\<lambda>x. xsub x m) xs;
          s = xsum (map xexp shifted)
      in map (\<lambda>x. xsub x (xlog s)) shifted)"

text \<open>
  The module: the three layers of the goal prediction header, the number of samples, the
  pre-training flag, the mode flag \<open>self.training\<close> of \<open>nn.Module\<close>, and the forward pass
  of the base class \<open>GlobalAttention\<close>, which is a parameter of the model.
\<close>

record goal_conditioned =
  goal_h1 :: linear
  goal_h2 :: linear
  goal_op :: linear
  num_samples :: nat
  pre_train :: bool
  training :: bool
  global_attention :: "encodings \<Rightarrow> error + real tensor2"

record outputs =
  agg_encoding :: "real tensor3"
  goal_log_probs :: "xreal tensor2"

text \<open>The goal prediction header on one row of the batch of encodings.\<close>

definition goal_header :: "goal_conditioned \<Rightarrow> real list \<Rightarrow> error + real list" where
  "goal_header gc x =
     bind_err (linear_apply (goal_h1 gc) x) (\<lambda>h1.
     bind_err (linear_apply (goal_h2 gc) (map leaky_relu h1)) (\<lambda>h2.
     linear_apply (goal_op gc) (map leaky_relu h2)))"

definition compute_goal_probs ::
  "goal_conditioned \<Rightarrow> real tensor2 \<Rightarrow> real tensor3 \<Rightarrow> real tensor2 \<Rightarrow> error + xreal tensor2" where
  "compute_goal_probs gc target_enc node_encodings node_masks =
     (let max_nodes = shape1 node_encodings;
          target_rep = map (replicate max_nodes) target_enc
      in bind_err (cat2 target_rep node_encodings) (\<lambda>enc.
         let valid = map (map (\<lambda>v. v = 0)) node_masks;
             masks_goal = map (map (\<lambda>m. [m])) valid
         in bind_err (masked_select_blocks enc valid) (\<lambda>enc_batched.
            bind_err (map_err (goal_header gc) enc_batched) (\<lambda>goal_ops_batched.
            bind_err (masked_scatter3 (map (map (map (\<lambda>_. 0))) masks_goal) masks_goal
                        (concat goal_ops_batched)) (\<lambda>scattered.
            let goal_ops = map (map hd) scattered;
                log_valid = map (map (\<lambda>v. xlog (Fin (1 - v)))) node_masks
            in Inr (map log_softmax
                     (map2 (map2 (\<lambda>a b. xadd (Fin a) b)) goal_ops log_valid)))))))"

text \<open>
  The choice of the goals. \<open>Categorical(probs).sample()\<close> draws from the global random
  state of torch: the sampler is a parameter that takes the state and the probabilities
  \<open>[batch, num_samples, max_nodes]\<close> and returns the indices \<open>[batch, num_samples]\<close> with
  the new state.
\<close>

definition last_column :: "real tensor2 \<Rightarrow> error + real list" where
  "last_column t = (if list_all (\<lambda>r. r \<noteq> []) t then Inr (map last t) else Inl IndexError)"

definition select_goals ::
  "goal_conditioned \<Rightarrow> ('rng \<Rightarrow> xreal tensor3 \<Rightarrow> (error + int tensor2) \<times> 'rng) \<Rightarrow>
   encodings \<Rightarrow> xreal tensor2 \<Rightarrow> 'rng \<Rightarrow> (error + int tensor2) \<times> 'rng" where
  "select_goals gc sampler e log_probs rng =
     (if pre_train gc \<and> training gc
      then (let max_nodes = shape1 (combined_masks e)
            in case enc_node_seq_gt e of
                 None \<Rightarrow> (Inl (KeyError ''node_seq_gt''), rng)
               | Some gt \<Rightarrow>
                   (bind_err (last_column gt) (\<lambda>final.
                      Inr (map (\<lambda>x. map (\<lambda>g. g - int max_nodes)
                                  (replicate (num_samples gc) (long x))) final)), rng))
      else sampler rng (map (\<lambda>row. replicate (num_samples gc) (map xexp row)) log_probs))"

text \<open>\<open>node_encodings[batch_indices, goals]\<close>: the two index tensors are broadcast against
  each other, and every pair of indices is looked up with Python's index rules.\<close>

definition lookup_goal :: "real tensor3 \<Rightarrow> nat \<Rightarrow> int \<Rightarrow> error + real list" where
  "lookup_goal node_encodings b g =
     (if b < length node_encodings
      then bind_err (py_index (length (node_encodings ! b)) g) (\<lambda>j. Inr (node_encodings ! b ! j))
      else Inl IndexError)"

definition gather_goals :: "real tensor3 \<Rightarrow> nat tensor2 \<Rightarrow> int tensor2 \<Rightarrow> error + real tensor3" where
  "gather_goals node_encodings batch_idx goals =
     (case (bdim (length batch_idx) (length goals), bdim (shape1 batch_idx) (shape1 goals)) of
        (Some b, Some n) \<Rightarrow>
          map_err (\<lambda>(bs, gs). map_err (\<lambda>(bi, g). lookup_goal node_encodings bi g)
                     (zip (expand n bs) (expand n gs)))
            (zip (expand b batch_idx) (expand b goals))
      | _ \<Rightarrow> Inl IndexError)"

text \<open>The position that torch's indexing gives an index on an axis of size \<open>n\<close>: a
  negative index counts from the end.\<close>

definition goal_position :: "nat \<Rightarrow> int \<Rightarrow> nat" where
  "goal_position n g = nat (if g < 0 then g + int n else g)"

definition goal_conditioned_forward ::
  "goal_conditioned \<Rightarrow> ('rng \<Rightarrow> xreal tensor3 \<Rightarrow> (error + int tensor2) \<times> 'rng) \<Rightarrow>
   encodings \<Rightarrow> 'rng \<Rightarrow> (error + outputs) \<times> 'rng" where
  "goal_conditioned_forward gc sampler e rng =
     (case compute_goal_probs gc (target_agent_encoding e) (combined e) (combined_masks e) of
        Inl err \<Rightarrow> (Inl err, rng)
      | Inr log_probs \<Rightarrow>
          (case select_goals gc sampler e log_probs rng of
             (Inl err, rng') \<Rightarrow> (Inl err, rng')
           | (Inr goals, rng') \<Rightarrow>
               (bind_err (global_attention gc e) (\<lambda>agg.
                  let agg_enc = map (replicate (num_samples gc)) agg;
                      batch_idx = map (replicate (num_samples gc)) [0..<length agg_enc]
                  in bind_err (gather_goals (combined e) batch_idx goals) (\<lambda>goal_encodings.
                     bind_err (cat2 agg_enc goal_encodings) (\<lambda>agg_enc'.
                       Inr \<lparr>agg_encoding = agg_enc', goal_log_probs = log_probs\<rparr>))), rng')))"

text \<open>The probability that a log-probability stands for, and the log-values that are
  finite or minus infinity.\<close>

fun prob_of :: "xreal \<Rightarrow> real" where
  "prob_of (Fin a) = exp a"
| "prob_of _ = 0"

fun fin_or_ninf :: "xreal \<Rightarrow> bool" where
  "fin_or_ninf (Fin a) = True"
| "fin_or_ninf NInf = True"
| "fin_or_ninf _ = False"

text \<open>A module for the examples: one node feature, one target feature, header layers of
  size 1; the base aggregator returns the target agent encoding.\<close>

definition example_gc :: goal_conditioned where
  "example_gc = \<lparr>goal_h1 = \<lparr>weight = [[1, 1]], bias = [0]\<rparr>,
                 goal_h2 = \<lparr>weight = [[1]], bias = [0]\<rparr>,
                 goal_op = \<lparr>weight = [[1]], bias = [0]\<rparr>,
                 num_samples = 2, pre_train = True, training = True,
                 global_attention = (\<lambda>e. Inr (target_agent_encoding e))\<rparr>"

section \<open>Properties\<close>

subsection \<open>Rectangular tensors\<close>


lemma rect2_nth: "rect2 n m t \<Longrightarrow> i < n \<Longrightarrow> length (t ! i) = m"
  by (simp add: rect2_def list_all_length)

lemma rect3_nth: "rect3 b n m t \<Longrightarrow> i < b \<Longrightarrow> rect2 n m (t ! i)"
  by (simp add: rect3_def list_all_length)

lemma rect3_len1: "rect3 b n m t \<Longrightarrow> i < b \<Longrightarrow> length (t ! i) = n"
  by (simp add: rect3_def rect2_def list_all_length)

lemma rect3_len2: "rect3 b n m t \<Longrightarrow> i < b \<Longrightarrow> j < n \<Longrightarrow> length (t ! i ! j) = m"
  by (simp add: rect3_def rect2_def list_all_length)

lemma rect3_I:
  "length t = b \<Longrightarrow> (\<And>i. i < b \<Longrightarrow> length (t ! i) = n) \<Longrightarrow>
   (\<And>i j. i < b \<Longrightarrow> j < n \<Longrightarrow> length (t ! i ! j) = m) \<Longrightarrow> rect3 b n m t"
  by (simp add: rect3_def rect2_def list_all_length)

lemma rect3_shape1: "rect3 b n m t \<Longrightarrow> 0 < b \<Longrightarrow> shape1 t = n"
  by (cases t) (auto simp: shape1_def rect3_def rect2_def)

lemma rect3_shape2: "rect3 b n m t \<Longrightarrow> 0 < b \<Longrightarrow> 0 < n \<Longrightarrow> shape2 t = m"
  by (cases t; cases "hd t") (auto simp: shape2_def shape1_def rect3_def rect2_def)

lemma rect3_same_shape: "rect3 b n m x \<Longrightarrow> rect3 b n m y \<Longrightarrow> same_shape3 x y"
  unfolding same_shape3_def
  by (rule nth_equalityI, simp add: rect3_def)
     (rule nth_equalityI, auto simp: rect3_len1 rect3_len2 rect3_def)

lemma rect3_is_no_edge: "rect3 b n m e \<Longrightarrow> rect3 b n m (is_no_edge e)"
  by (simp add: rect3_def rect2_def is_no_edge_def list_all_length)

lemma rect3_dummy_vals: "rect3 b n m (dummy_vals b n m)"
  by (simp add: rect3_def rect2_def dummy_vals_def src_indices_def list_all_length)

lemma dummy_vals_nth: "b < B \<Longrightarrow> i < n \<Longrightarrow> k < m \<Longrightarrow> dummy_vals B n m ! b ! i ! k = real i"
  by (simp add: dummy_vals_def src_indices_def)

lemma src_indices_nth: "b < B \<Longrightarrow> i < n \<Longrightarrow> k < m \<Longrightarrow> src_indices B n m ! b ! i ! k = i"
  by (simp add: src_indices_def)

lemma batch_indices_nth: "b < B \<Longrightarrow> i < n \<Longrightarrow> k < m \<Longrightarrow> batch_indices B n m ! b ! i ! k = b"
  by (simp add: batch_indices_def)

lemma assign_where_ok:
  assumes x: "rect3 b n m x" and k: "rect3 b n m msk" and y: "rect3 b n m y"
  shows "\<exists>x'. assign_where x msk y = Inr x' \<and> rect3 b n m x' \<and>
    (\<forall>i<b. \<forall>j<n. \<forall>k<m. x' ! i ! j ! k = (if msk ! i ! j ! k then y ! i ! j ! k else x ! i ! j ! k))"
proof -
  let ?x' = "map2 (\<lambda>xr (mr, yr). map2 (\<lambda>xe (me, ye). map2 (\<lambda>xv (mv, yv). if mv then yv else xv)
                    xe (zip me ye)) xr (zip mr yr)) x (zip msk y)"
  have eq: "assign_where x msk y = Inr ?x'"
    using rect3_same_shape[OF x k] rect3_same_shape[OF y k] by (simp add: assign_where_def)
  have l0: "length x = b" "length msk = b" "length y = b"
    using x k y by (simp_all add: rect3_def)
  have r: "rect3 b n m ?x'"
    by (rule rect3_I) (simp_all add: l0 rect3_len1[OF x] rect3_len1[OF k] rect3_len1[OF y]
         rect3_len2[OF x] rect3_len2[OF k] rect3_len2[OF y])
  have v: "\<forall>i<b. \<forall>j<n. \<forall>k<m. ?x' ! i ! j ! k = (if msk ! i ! j ! k then y ! i ! j ! k else x ! i ! j ! k)"
    by (simp add: l0 rect3_len1[OF x] rect3_len1[OF k] rect3_len1[OF y]
         rect3_len2[OF x] rect3_len2[OF k] rect3_len2[OF y])
  show ?thesis using eq r v by blast
qed

subsection \<open>The adjacency builder\<close>


lemma py_index_ok: "- int n \<le> d \<Longrightarrow> d < int n \<Longrightarrow> \<exists>j<n. py_index n d = Inr j"
  by (auto simp: py_index_def Let_def)

lemma py_index_lt: "py_index n d = Inr j \<Longrightarrow> j < n"
  by (auto simp: py_index_def Let_def split: if_splits)

lemma put_true_ok:
  assumes A: "rect3 B N M A" and b: "b < B" and i: "i < N" and d: "py_index M d = Inr j"
  shows "\<exists>A'. put_true A (b, i, d) = Inr A' \<and> rect3 B N M A' \<and>
     (\<forall>b'<B. \<forall>i'<N. \<forall>j'<M. A' ! b' ! i' ! j' = (A ! b' ! i' ! j' \<or> (b' = b \<and> i' = i \<and> j' = j)))"
proof -
  let ?A' = "A[b := (A ! b)[i := (A ! b ! i)[j := True]]]"
  have lA: "length A = B" using A by (simp add: rect3_def)
  have eq: "put_true A (b, i, d) = Inr ?A'"
    using b i d by (simp add: put_true_def lA rect3_len1[OF A] rect3_len2[OF A])
  have r: "rect3 B N M ?A'"
    using b i by (intro rect3_I) (auto simp: lA nth_list_update rect3_len1[OF A] rect3_len2[OF A])
  have v: "\<forall>b'<B. \<forall>i'<N. \<forall>j'<M. ?A' ! b' ! i' ! j' = (A ! b' ! i' ! j' \<or> (b' = b \<and> i' = i \<and> j' = j))"
    using py_index_lt[OF d] b i
    by (auto simp: lA nth_list_update rect3_len1[OF A] rect3_len2[OF A])
  show ?thesis using eq r v by blast
qed

lemma index_put_true_ok:
  assumes "rect3 B N M A"
    and "\<forall>t\<in>set ts. case t of (b, i, d) \<Rightarrow> b < B \<and> i < N \<and> - int M \<le> d \<and> d < int M"
  shows "\<exists>A'. index_put_true A ts = Inr A' \<and> rect3 B N M A' \<and>
     (\<forall>b<B. \<forall>i<N. \<forall>j<M. A' ! b ! i ! j =
         (A ! b ! i ! j \<or> (\<exists>d. (b, i, d) \<in> set ts \<and> py_index M d = Inr j)))"
  using assms
proof (induction ts arbitrary: A)
  case Nil
  then show ?case by simp
next
  case (Cons t ts)
  obtain b i d where t: "t = (b, i, d)" by (cases t) auto
  from Cons.prems(2) t have bi: "b < B" "i < N" and dr: "- int M \<le> d" "d < int M" by auto
  from py_index_ok[OF dr] obtain j where j: "j < M" "py_index M d = Inr j" by blast
  from put_true_ok[OF Cons.prems(1) bi j(2)] obtain A1 where
    A1: "put_true A (b, i, d) = Inr A1" "rect3 B N M A1"
      "\<forall>b'<B. \<forall>i'<N. \<forall>j'<M. A1 ! b' ! i' ! j' = (A ! b' ! i' ! j' \<or> (b' = b \<and> i' = i \<and> j' = j))"
    by blast
  from Cons.IH[OF A1(2)] Cons.prems(2) obtain A' where
    A': "index_put_true A1 ts = Inr A'" "rect3 B N M A'"
      "\<forall>b<B. \<forall>i<N. \<forall>j<M. A' ! b ! i ! j =
         (A1 ! b ! i ! j \<or> (\<exists>d. (b, i, d) \<in> set ts \<and> py_index M d = Inr j))"
    by auto
  have eq: "index_put_true A (t # ts) = Inr A'" using A1(1) A'(1) t by simp
  have v: "\<forall>b'<B. \<forall>i'<N. \<forall>j'<M. A' ! b' ! i' ! j' =
         (A ! b' ! i' ! j' \<or> (\<exists>d'. (b', i', d') \<in> set (t # ts) \<and> py_index M d' = Inr j'))"
  proof (intro allI impI)
    fix b' i' j' assume h: "b' < B" "i' < N" "j' < M"
    show "A' ! b' ! i' ! j' =
         (A ! b' ! i' ! j' \<or> (\<exists>d'. (b', i', d') \<in> set (t # ts) \<and> py_index M d' = Inr j'))"
      using A'(3) A1(3) h j(2) t by auto
  qed
  show ?case using eq A'(2) v by blast
qed


lemma edge_triples_set:
  "set (edge_triples B N E s) = {(b, i, long (s ! b ! i ! k)) | b i k. b < B \<and> i < N \<and> k < E - 1}"
  by (force simp: edge_triples_def batch_indices_nth src_indices_nth)


lemma long_of_nat: "long (real i) = int i"
  by (simp add: long_def)

lemma rect3_identity_adj: "rect3 B N N (identity_adj B N)"
  by (simp add: rect3_def rect2_def identity_adj_def eye_def list_all_length)

lemma identity_adj_nth: "b < B \<Longrightarrow> i < N \<Longrightarrow> j < N \<Longrightarrow> identity_adj B N ! b ! i ! j = (i = j)"
  by (simp add: identity_adj_def eye_def)

lemma rect3_transpose12: "length A = B \<Longrightarrow> rect3 B N N (transpose12 N A)"
  by (simp add: rect3_def rect2_def transpose12_def list_all_length)

lemma transpose12_nth:
  "b < length A \<Longrightarrow> i < N \<Longrightarrow> j < N \<Longrightarrow> transpose12 N A ! b ! i ! j = A ! b ! j ! i"
  by (simp add: transpose12_def)

lemma or3_ok:
  assumes x: "rect3 B N M x" and y: "rect3 B N M y"
  shows "rect3 B N M (or3 x y)"
    and "b < B \<Longrightarrow> i < N \<Longrightarrow> j < M \<Longrightarrow> or3 x y ! b ! i ! j = (x ! b ! i ! j \<or> y ! b ! i ! j)"
proof -
  have l0: "length x = B" "length y = B" using x y by (simp_all add: rect3_def)
  show "rect3 B N M (or3 x y)"
    unfolding or3_def
    by (rule rect3_I) (simp_all add: l0 rect3_len1[OF x] rect3_len1[OF y]
         rect3_len2[OF x] rect3_len2[OF y])
  show "b < B \<Longrightarrow> i < N \<Longrightarrow> j < M \<Longrightarrow> or3 x y ! b ! i ! j = (x ! b ! i ! j \<or> y ! b ! i ! j)"
    unfolding or3_def
    by (simp add: l0 rect3_len1[OF x] rect3_len1[OF y] rect3_len2[OF x] rect3_len2[OF y])
qed


lemma build_adj_mat_core:
  assumes s: "rect3 B N E s_next" and e: "rect3 B N E edge_type"
    and sh: "shape1 s_next = N" "shape2 s_next = E"
    and rng: "\<forall>b<B. \<forall>i<N. \<forall>k<E - 1. edge_type ! b ! i ! k \<noteq> 0 \<longrightarrow>
                - int N \<le> long (s_next ! b ! i ! k) \<and> long (s_next ! b ! i ! k) < int N"
  shows "\<exists>s' A. build_adj_mat s_next edge_type = Inr (s', A) \<and> rect3 B N E s' \<and>
     (\<forall>b<B. \<forall>i<N. \<forall>k<E. s' ! b ! i ! k =
          (if edge_type ! b ! i ! k = 0 then real i else s_next ! b ! i ! k)) \<and>
     rect3 B N N A \<and>
     (\<forall>b<B. \<forall>i<N. \<forall>j<N. A ! b ! i ! j = (i = j \<or> marked N E s' b i j \<or> marked N E s' b j i))"
proof -
  have lB: "length s_next = B" "length edge_type = B" using s e by (simp_all add: rect3_def)
  from assign_where_ok[OF s rect3_is_no_edge[OF e] rect3_dummy_vals]
  obtain s' where s': "assign_where s_next (is_no_edge edge_type) (dummy_vals B N E) = Inr s'"
      "rect3 B N E s'"
      "\<forall>b<B. \<forall>i<N. \<forall>k<E. s' ! b ! i ! k =
         (if is_no_edge edge_type ! b ! i ! k then dummy_vals B N E ! b ! i ! k else s_next ! b ! i ! k)"
    by blast
  have s'v: "\<forall>b<B. \<forall>i<N. \<forall>k<E. s' ! b ! i ! k =
          (if edge_type ! b ! i ! k = 0 then real i else s_next ! b ! i ! k)"
    using s'(3) by (simp add: dummy_vals_nth is_no_edge_def lB rect3_len1[OF e] rect3_len2[OF e])
  have tr: "\<forall>t\<in>set (edge_triples B N E s'). case t of (b, i, d) \<Rightarrow>
              b < B \<and> i < N \<and> - int N \<le> d \<and> d < int N"
  proof
    fix t assume "t \<in> set (edge_triples B N E s')"
    then obtain b i k where t: "t = (b, i, long (s' ! b ! i ! k))" and h: "b < B" "i < N" "k < E - 1"
      by (auto simp: edge_triples_set)
    have kE: "k < E" using h(3) by simp
    have "- int N \<le> long (s' ! b ! i ! k) \<and> long (s' ! b ! i ! k) < int N"
    proof (cases "edge_type ! b ! i ! k = 0")
      case True
      then have "s' ! b ! i ! k = real i" using s'v h kE by simp
      then show ?thesis using h(2) by (simp add: long_of_nat)
    next
      case False
      then have "s' ! b ! i ! k = s_next ! b ! i ! k" using s'v h kE by simp
      then show ?thesis using rng h False by simp
    qed
    then show "case t of (b, i, d) \<Rightarrow> b < B \<and> i < N \<and> - int N \<le> d \<and> d < int N"
      using t h by simp
  qed
  from index_put_true_ok[OF rect3_identity_adj tr]
  obtain A1 where A1: "index_put_true (identity_adj B N) (edge_triples B N E s') = Inr A1"
      "rect3 B N N A1"
      "\<forall>b<B. \<forall>i<N. \<forall>j<N. A1 ! b ! i ! j =
         (identity_adj B N ! b ! i ! j \<or>
          (\<exists>d. (b, i, d) \<in> set (edge_triples B N E s') \<and> py_index N d = Inr j))"
    by blast
  have A1v: "\<forall>b<B. \<forall>i<N. \<forall>j<N. A1 ! b ! i ! j = (i = j \<or> marked N E s' b i j)"
    using A1(3) by (auto simp: identity_adj_nth edge_triples_set marked_def)
  let ?A = "or3 A1 (transpose12 N A1)"
  have lA1: "length A1 = B" using A1(2) by (simp add: rect3_def)
  have eq: "build_adj_mat s_next edge_type = Inr (s', ?A)"
    using s'(1) A1(1) by (simp add: build_adj_mat_def Let_def sh lB)
  have rA: "rect3 B N N ?A" by (rule or3_ok(1)[OF A1(2) rect3_transpose12[OF lA1]])
  have Av: "\<forall>b<B. \<forall>i<N. \<forall>j<N. ?A ! b ! i ! j = (i = j \<or> marked N E s' b i j \<or> marked N E s' b j i)"
    using A1v by (auto simp: or3_ok(2)[OF A1(2) rect3_transpose12[OF lA1]] transpose12_nth lA1)
  show ?thesis using eq s'(2) s'v rA Av by blast
qed


lemma rect3_no_nodes: "rect3 B 0 E t \<Longrightarrow> rect3 B 0 E' t"
  by (simp add: rect3_def rect2_def list_all_length)

lemma rect3_no_nodes_shape2: "rect3 B 0 E t \<Longrightarrow> shape2 t = 0"
  by (cases t) (auto simp: shape2_def shape1_def rect3_def rect2_def)

lemma rect3_no_nodes_shape1: "rect3 B 0 E t \<Longrightarrow> shape1 t = 0"
  by (cases t) (auto simp: shape1_def rect3_def rect2_def)

lemma build_adj_mat_char:
  assumes s: "rect3 B N E s_next" and e: "rect3 B N E edge_type"
    and rng: "\<forall>b<B. \<forall>i<N. \<forall>k<E - 1. edge_type ! b ! i ! k \<noteq> 0 \<longrightarrow>
                - int N \<le> long (s_next ! b ! i ! k) \<and> long (s_next ! b ! i ! k) < int N"
  shows "\<exists>s' A. build_adj_mat s_next edge_type = Inr (s', A) \<and> rect3 B N E s' \<and>
     (\<forall>b<B. \<forall>i<N. \<forall>k<E. s' ! b ! i ! k =
          (if edge_type ! b ! i ! k = 0 then real i else s_next ! b ! i ! k)) \<and>
     rect3 B N N A \<and>
     (\<forall>b<B. \<forall>i<N. \<forall>j<N. A ! b ! i ! j = (i = j \<or> marked N E s' b i j \<or> marked N E s' b j i))"
proof (cases "N = 0")
  case True
  have s0: "rect3 B 0 0 s_next" and e0: "rect3 B 0 0 edge_type"
    using s e True by (auto intro: rect3_no_nodes)
  have sh: "shape1 s_next = 0" "shape2 s_next = 0"
    using s0 by (simp_all add: rect3_no_nodes_shape1 rect3_no_nodes_shape2)
  from build_adj_mat_core[OF s0 e0 sh] obtain s' A where
    r: "build_adj_mat s_next edge_type = Inr (s', A)" "rect3 B 0 0 s'" "rect3 B 0 0 A"
    by auto
  have "rect3 B N E s'" using r(2) True by (auto intro: rect3_no_nodes)
  then show ?thesis using r(1) r(3) True by auto
next
  case False
  show ?thesis
  proof (cases "B = 0")
    case True
    then have "s_next = []" "edge_type = []" using s e by (simp_all add: rect3_def)
    then show ?thesis using True
      by (simp add: build_adj_mat_def Let_def assign_where_def same_shape3_def is_no_edge_def
          dummy_vals_def src_indices_def identity_adj_def edge_triples_def or3_def transpose12_def
          rect3_def)
  next
    case B: False
    have sh: "shape1 s_next = N" "shape2 s_next = E"
      using rect3_shape1[OF s] rect3_shape2[OF s] B False by simp_all
    show ?thesis by (rule build_adj_mat_core[OF s e sh rng])
  qed
qed


lemma tensor3_eqI:
  assumes x: "rect3 B N M x" and y: "rect3 B N M y"
    and v: "\<And>b i j. b < B \<Longrightarrow> i < N \<Longrightarrow> j < M \<Longrightarrow> x ! b ! i ! j = y ! b ! i ! j"
  shows "x = y"
proof (rule nth_equalityI)
  show "length x = length y" using x y by (simp add: rect3_def)
next
  fix b assume "b < length x"
  then have b: "b < B" using x by (simp add: rect3_def)
  show "x ! b = y ! b"
  proof (rule nth_equalityI)
    show "length (x ! b) = length (y ! b)" using b by (simp add: rect3_len1[OF x] rect3_len1[OF y])
  next
    fix i assume "i < length (x ! b)"
    then have i: "i < N" using b by (simp add: rect3_len1[OF x])
    show "x ! b ! i = y ! b ! i"
      by (rule nth_equalityI) (use b i v in \<open>simp_all add: rect3_len2[OF x] rect3_len2[OF y]\<close>)
  qed
qed

lemma transpose12_symmetric:
  assumes A: "rect3 B N N A"
    and v: "\<And>b i j. b < B \<Longrightarrow> i < N \<Longrightarrow> j < N \<Longrightarrow> A ! b ! i ! j = A ! b ! j ! i"
  shows "transpose12 N A = A"
proof -
  have lA: "length A = B" using A by (simp add: rect3_def)
  show ?thesis
    by (rule tensor3_eqI[OF rect3_transpose12[OF lA] A]) (simp add: transpose12_nth lA v)
qed

lemma all_less_1: "(\<forall>i<(1::nat). P i) = P 0" by simp
lemma all_less_2: "(\<forall>i<(2::nat). P i) = (P 0 \<and> P 1)" by (auto simp: less_Suc_eq numeral_2_eq_2)
lemma all_less_3: "(\<forall>i<(3::nat). P i) = (P 0 \<and> P 1 \<and> P 2)"
  by (auto simp: less_Suc_eq numeral_3_eq_3 numeral_2_eq_2)


lemma rect3_spec_s_next: "rect3 B N E (spec_s_next B N E s e)"
  by (simp add: rect3_def rect2_def spec_s_next_def list_all_length)

lemma spec_s_next_nth:
  "b < B \<Longrightarrow> i < N \<Longrightarrow> k < E \<Longrightarrow>
   spec_s_next B N E s e ! b ! i ! k = (if e ! b ! i ! k = 0 then real i else s ! b ! i ! k)"
  by (simp add: spec_s_next_def)

lemma rect3_spec_adjacency: "rect3 B N N (spec_adjacency B N E s e)"
  by (simp add: rect3_def rect2_def spec_adjacency_def Let_def list_all_length)

lemma spec_adjacency_nth:
  "b < B \<Longrightarrow> i < N \<Longrightarrow> j < N \<Longrightarrow>
   spec_adjacency B N E s e ! b ! i ! j =
     (i = j \<or> spec_marked E (spec_s_next B N E s e) b i j \<or> spec_marked E (spec_s_next B N E s e) b j i)"
  by (auto simp: spec_adjacency_def Let_def)

lemma py_index_nonneg: "0 \<le> d \<Longrightarrow> (py_index n d = Inr j) = (d = int j \<and> j < n)"
  by (auto simp: py_index_def Let_def)

text \<open>
  Claim C3, as amended. For \<open>s_next\<close> and \<open>edge_type\<close> of one shape
  \<open>[batch, max_nodes, max_edges]\<close> in which every destination that is used (a slot other
  than the last of its node, of an edge type other than 0, truncated to an integer) is an
  index that the node axis accepts, \<open>- max_nodes \<le> d < max_nodes\<close>, \<open>build_adj_mat\<close>
  returns a matrix of shape \<open>[batch, max_nodes, max_nodes]\<close> that equals its transpose
  over the last two axes and is True on every diagonal entry.
\<close>

theorem build_adj_mat_symmetric:
  assumes "rect3 B N E s_next" and "rect3 B N E edge_type"
    and "\<forall>b<B. \<forall>i<N. \<forall>k<E - 1. edge_type ! b ! i ! k \<noteq> 0 \<longrightarrow>
                - int N \<le> long (s_next ! b ! i ! k) \<and> long (s_next ! b ! i ! k) < int N"
  shows "\<exists>s' A. build_adj_mat s_next edge_type = Inr (s', A) \<and> rect3 B N N A \<and>
           transpose12 N A = A \<and> (\<forall>b<B. \<forall>i<N. A ! b ! i ! i)"
proof -
  from build_adj_mat_char[OF assms] obtain s' A where
    r: "build_adj_mat s_next edge_type = Inr (s', A)" "rect3 B N N A"
       "\<forall>b<B. \<forall>i<N. \<forall>j<N. A ! b ! i ! j = (i = j \<or> marked N E s' b i j \<or> marked N E s' b j i)"
    by blast
  have sym: "transpose12 N A = A"
    by (rule transpose12_symmetric[OF r(2)]) (use r(3) in auto)
  have diag: "\<forall>b<B. \<forall>i<N. A ! b ! i ! i" using r(3) by simp
  show ?thesis using r(1,2) sym diag by blast
qed

text \<open>The theorem at one batch entry with three nodes, one of them reached through the
  negative index \<open>-2\<close>.\<close>

theorem build_adj_mat_symmetric_witness:
  "rect3 1 3 2 [[[1, 0], [0, 0], [-2, 0 :: real]]] \<and> rect3 1 3 2 [[[1, 1], [1, 0], [3, 0 :: int]]] \<and>
   build_adj_mat [[[1, 0], [0, 0], [-2, 0]]] [[[1, 1], [1, 0], [3, 0]]] =
     Inr ([[[1, 0], [0, 1], [-2, 2]]],
          [[[True, True, False], [True, True, True], [False, True, True]]]) \<and>
   transpose12 3 [[[True, True, False], [True, True, True], [False, True, True]]] =
     [[[True, True, False], [True, True, True], [False, True, True]]]"
proof -
  have h1: "rect3 1 3 2 [[[1, 0], [0, 0], [-2, 0 :: real]]]" by (simp add: rect3_def rect2_def)
  have h2: "rect3 1 3 2 [[[1, 1], [1, 0], [3, 0 :: int]]]" by (simp add: rect3_def rect2_def)
  have h3: "\<forall>b<1. \<forall>i<3. \<forall>k<2 - 1. [[[1, 1], [1, 0], [3, 0 :: int]]] ! b ! i ! k \<noteq> 0 \<longrightarrow>
      - int 3 \<le> long ([[[1, 0], [0, 0], [-2, 0 :: real]]] ! b ! i ! k) \<and>
      long ([[[1, 0], [0, 0], [-2, 0 :: real]]] ! b ! i ! k) < int 3"
    by (simp add: all_less_3 long_def)
  have v: "build_adj_mat [[[1, 0], [0, 0], [-2, 0]]] [[[1, 1], [1, 0], [3, 0]]] =
     Inr ([[[1, 0], [0, 1], [-2, 2]]],
          [[[True, True, False], [True, True, True], [False, True, True]]])"
    by (simp add: build_adj_mat_def shape1_def shape2_def identity_adj_def eye_def assign_where_def
      same_shape3_def is_no_edge_def dummy_vals_def src_indices_def batch_indices_def
      edge_triples_def put_true_def py_index_def long_def Let_def or3_def transpose12_def upt_rec)
  from build_adj_mat_symmetric[OF h1 h2 h3] show ?thesis using h1 h2 unfolding v by simp
qed

text \<open>Without the bound on the destinations the call does not return a matrix: a single
  node whose first slot points at node 1 raises, as \<open>adj_mat[0, 0, 1]\<close> is out of
  bounds for a node axis of size 1.\<close>

theorem build_adj_mat_out_of_range: "build_adj_mat [[[1, 0]]] [[[1, 1]]] = Inl IndexError"
  by (simp add: build_adj_mat_def shape1_def shape2_def identity_adj_def eye_def assign_where_def
      same_shape3_def is_no_edge_def dummy_vals_def src_indices_def batch_indices_def
      edge_triples_def put_true_def py_index_def long_def)

text \<open>
  Claim C4. \<open>build_adj_mat\<close> computes what the specified algorithm describes: from the
  identity per batch entry, every slot of edge type 0 gets its own source node as
  destination, every slot but the last of each node marks \<open>adjacency[src, dest]\<close> with
  that destination, and the matrix is OR-ed with its transpose. This holds for tensors of
  one shape whose used destinations are node indices, \<open>0 \<le> d < max_nodes\<close>.
\<close>

theorem build_adj_mat_refines_spec:
  assumes s: "rect3 B N E s_next" and e: "rect3 B N E edge_type"
    and rng: "\<forall>b<B. \<forall>i<N. \<forall>k<E - 1. edge_type ! b ! i ! k \<noteq> 0 \<longrightarrow>
                0 \<le> long (s_next ! b ! i ! k) \<and> long (s_next ! b ! i ! k) < int N"
  shows "build_adj_mat s_next edge_type =
           Inr (spec_s_next B N E s_next edge_type, spec_adjacency B N E s_next edge_type)"
proof -
  have rng': "\<forall>b<B. \<forall>i<N. \<forall>k<E - 1. edge_type ! b ! i ! k \<noteq> 0 \<longrightarrow>
                - int N \<le> long (s_next ! b ! i ! k) \<and> long (s_next ! b ! i ! k) < int N"
    using rng by fastforce
  from build_adj_mat_char[OF s e rng'] obtain s' A where
    r: "build_adj_mat s_next edge_type = Inr (s', A)" "rect3 B N E s'"
       "\<forall>b<B. \<forall>i<N. \<forall>k<E. s' ! b ! i ! k =
          (if edge_type ! b ! i ! k = 0 then real i else s_next ! b ! i ! k)"
       "rect3 B N N A"
       "\<forall>b<B. \<forall>i<N. \<forall>j<N. A ! b ! i ! j = (i = j \<or> marked N E s' b i j \<or> marked N E s' b j i)"
    by blast
  have s': "s' = spec_s_next B N E s_next edge_type"
    by (rule tensor3_eqI[OF r(2) rect3_spec_s_next]) (simp add: r(3) spec_s_next_nth)
  have nn: "0 \<le> long (s' ! b ! i ! k)" if "b < B" "i < N" "k < E - 1" for b i k
  proof -
    have k: "k < E" using that(3) by simp
    show ?thesis using r(3) rng that k by (auto simp: long_of_nat)
  qed
  have m: "marked N E s' b i j = spec_marked E s' b i j" if "b < B" "i < N" "j < N" for b i j
    using that nn[OF that(1,2)] by (auto simp: marked_def spec_marked_def py_index_nonneg)
  have A: "A = spec_adjacency B N E s_next edge_type"
  proof (rule tensor3_eqI[OF r(4) rect3_spec_adjacency])
    fix b i j assume h: "b < B" "i < N" "j < N"
    show "A ! b ! i ! j = spec_adjacency B N E s_next edge_type ! b ! i ! j"
      using r(5) h m[OF h] m[OF h(1) h(3) h(2)] by (simp add: spec_adjacency_nth s'[symmetric])
  qed
  show ?thesis using r(1) s' A by simp
qed

text \<open>The theorem at three nodes with three slots each; the last slot of node 1 points at
  node 2 and leaves no edge.\<close>

theorem build_adj_mat_refines_spec_witness:
  "rect3 1 3 3 [[[1, 2, 0], [0, 0, 2], [2, 1, 0 :: real]]] \<and>
   rect3 1 3 3 [[[1, 1, 1], [1, 0, 1], [0, 0, 0 :: int]]] \<and>
   build_adj_mat [[[1, 2, 0], [0, 0, 2], [2, 1, 0]]] [[[1, 1, 1], [1, 0, 1], [0, 0, 0]]] =
     Inr ([[[1, 2, 0], [0, 1, 2], [2, 2, 2]]],
          [[[True, True, True], [True, True, False], [True, False, True]]])"
proof -
  have h1: "rect3 1 3 3 [[[1, 2, 0], [0, 0, 2], [2, 1, 0 :: real]]]" by (simp add: rect3_def rect2_def)
  have h2: "rect3 1 3 3 [[[1, 1, 1], [1, 0, 1], [0, 0, 0 :: int]]]" by (simp add: rect3_def rect2_def)
  have h3: "\<forall>b<1. \<forall>i<3. \<forall>k<3 - 1. [[[1, 1, 1], [1, 0, 1], [0, 0, 0 :: int]]] ! b ! i ! k \<noteq> 0 \<longrightarrow>
      0 \<le> long ([[[1, 2, 0], [0, 0, 2], [2, 1, 0 :: real]]] ! b ! i ! k) \<and>
      long ([[[1, 2, 0], [0, 0, 2], [2, 1, 0 :: real]]] ! b ! i ! k) < int 3"
    by (simp add: all_less_3 all_less_2 long_def)
  have sp: "spec_s_next 1 3 3 [[[1, 2, 0], [0, 0, 2], [2, 1, 0]]] [[[1, 1, 1], [1, 0, 1], [0, 0, 0]]]
      = [[[1, 2, 0], [0, 1, 2], [2, 2, 2]]]"
    by (simp add: spec_s_next_def upt_rec)
  have sa: "spec_adjacency 1 3 3 [[[1, 2, 0], [0, 0, 2], [2, 1, 0]]] [[[1, 1, 1], [1, 0, 1], [0, 0, 0]]]
      = [[[True, True, True], [True, True, False], [True, False, True]]]"
    unfolding spec_adjacency_def sp Let_def by (simp add: spec_marked_def upt_rec long_def)
  from build_adj_mat_refines_spec[OF h1 h2 h3] show ?thesis using h1 h2 sp sa by simp
qed

subsection \<open>The variable-length sequence encoder\<close>

lemma rect4_len1: "rect4 b n m k t \<Longrightarrow> i < b \<Longrightarrow> length (t ! i) = n"
  by (simp add: rect4_def rect3_def list_all_length)

lemma rect4_len2: "rect4 b n m k t \<Longrightarrow> i < b \<Longrightarrow> j < n \<Longrightarrow> length (t ! i ! j) = m"
  by (simp add: rect4_def rect3_def rect2_def list_all_length)

lemma rect4_len3:
  "rect4 b n m k t \<Longrightarrow> i < b \<Longrightarrow> j < n \<Longrightarrow> l < m \<Longrightarrow> length (t ! i ! j ! l) = k"
  by (simp add: rect4_def rect3_def rect2_def list_all_length)

lemma rect4_shape1: "rect4 b n m k t \<Longrightarrow> 0 < b \<Longrightarrow> shape1 t = n"
  by (cases t) (auto simp: shape1_def rect4_def rect3_def)

lemma rect2_shape1: "rect2 b n t \<Longrightarrow> 0 < b \<Longrightarrow> shape1 t = n"
  by (cases t) (auto simp: shape1_def rect2_def)

lemma select0_ok:
  assumes m: "rect4 B M T F masks" and F: "0 < F"
  shows "select0 masks = Inr (map (map (map hd)) masks)"
proof -
  have "list_all (list_all (list_all (\<lambda>r. r \<noteq> []))) masks"
    using F rect4_len1[OF m] rect4_len2[OF m] rect4_len3[OF m] m
    by (fastforce simp: list_all_length rect4_def)
  then show ?thesis by (simp add: select0_def)
qed

lemma select0_nth:
  assumes m: "rect4 B M T F masks" and h: "b < B" "i < M" "t < T"
  shows "map (map (map hd)) masks ! b ! i ! t = hd (masks ! b ! i ! t)"
  using h rect4_len1[OF m] rect4_len2[OF m] m by (simp add: rect4_def)

lemma hd_nth0: "xs \<noteq> [] \<Longrightarrow> hd xs = xs ! 0"
  by (simp add: hd_conv_nth)

lemma rect3_select0: "rect4 B M T F masks \<Longrightarrow> rect3 B M T (map (map (map hd)) masks)"
  by (simp add: rect4_def rect3_def rect2_def list_all_length)

lemma rect2_masks_for_batching: "rect3 B M T m0 \<Longrightarrow> rect2 B M (masks_for_batching m0)"
  by (simp add: rect3_def rect2_def masks_for_batching_def list_all_length)

lemma masks_for_batching_nth:
  assumes m: "rect3 B M T m0" and h: "b < B" "i < M"
  shows "masks_for_batching m0 ! b ! i = (\<exists>t<T. m0 ! b ! i ! t = 0)"
  using h m rect3_len1[OF m] rect3_len2[OF m]
  by (simp add: masks_for_batching_def rect3_def list_ex_length)

lemma expand_same: "length xs = n \<Longrightarrow> expand n xs = xs"
  by (simp add: expand_def)

lemma bdim_same: "bdim a a = Some a"
  by (simp add: bdim_def)

lemma masked_select_blocks_ok:
  assumes x: "rect2 B M x" and m: "rect2 B M m"
  shows "masked_select_blocks x m = Inr (concat (map2 select_rows x m))"
proof -
  have sh: "shape1 x = shape1 m"
    using x m by (cases x; cases m) (auto simp: shape1_def rect2_def)
  have l: "length x = B" "length m = B" using x m by (simp_all add: rect2_def)
  have rows: "map2 (\<lambda>xr mr. select_rows (expand (shape1 m) xr) (expand (shape1 m) mr)) x m
            = map2 select_rows x m"
  proof (cases "B = 0")
    case True then show ?thesis using l by simp
  next
    case False
    then have s1: "shape1 m = M" using rect2_shape1[OF m] by simp
    have "\<And>p. p \<in> set (zip x m) \<Longrightarrow> length (fst p) = M \<and> length (snd p) = M"
      using x m by (auto simp: rect2_def list_all_iff dest: set_zip_leftD set_zip_rightD)
    then show ?thesis by (auto simp: s1 expand_same)
  qed
  show ?thesis
    by (simp add: masked_select_blocks_def sh bdim_same l expand_same rows)
qed

lemma mask0_nth:
  assumes m: "rect4 B M T F masks" and F: "0 < F" and h: "b < B" "i < M" "t < T"
  shows "map (map (map hd)) masks ! b ! i ! t = masks ! b ! i ! t ! 0"
proof -
  have "masks ! b ! i ! t \<noteq> []" using rect4_len3[OF m h] F by auto
  then show ?thesis using select0_nth[OF m h] by (simp add: hd_conv_nth)
qed

lemma rect2_seq_lens: "rect3 B M T m0 \<Longrightarrow> rect2 B M (seq_lens m0)"
  by (simp add: rect3_def rect2_def seq_lens_def list_all_length)

lemma seq_lens_nth:
  assumes m: "rect3 B M T m0" and h: "b < B" "i < M"
  shows "seq_lens m0 ! b ! i = sum_list (map (\<lambda>v. 1 - v) (m0 ! b ! i))"
  using h m rect3_len1[OF m] by (simp add: seq_lens_def rect3_def)

lemma sum_padded: "\<forall>v\<in>set xs. v = (1::real) \<Longrightarrow> sum_list (map (\<lambda>v. 1 - v) xs) = 0"
  by (induction xs) auto

lemma concat_all:
  assumes t: "rect2 B M t" and v: "\<And>b i. b < B \<Longrightarrow> i < M \<Longrightarrow> P (t ! b ! i)"
  shows "\<forall>x\<in>set (concat t). P x"
proof
  fix x assume "x \<in> set (concat t)"
  then obtain r where r: "r \<in> set t" "x \<in> set r" by auto
  then obtain b where b: "b < length t" "r = t ! b" by (auto simp: in_set_conv_nth)
  from r(2) obtain i where i: "i < length r" "x = r ! i" by (auto simp: in_set_conv_nth)
  have "b < B" using b t by (simp add: rect2_def)
  moreover have "i < M" using i b rect2_nth[OF t \<open>b < B\<close>] by simp
  ultimately show "P x" using v b i by simp
qed

text \<open>
  Claim C5. When every entity of every example has no valid time step (the mask is 1 at
  every time step, so the compacted batch is empty), \<open>variable_size_gru_encode\<close> returns
  the all-zero tensor of shape \<open>[batch, entity_count, hidden_size]\<close> without error. The
  result holds for every recurrent unit \<open>g\<close>, also one whose call raises: the unit is not
  called.
\<close>

theorem variable_size_gru_encode_all_invalid:
  assumes f: "rect4 B M T D feat_embedding" and m: "rect4 B M T F masks"
    and pos: "0 < T" "0 < D" "0 < F"
    and inv: "\<forall>b<B. \<forall>i<M. \<forall>t<T. masks ! b ! i ! t ! 0 = 1"
  shows "variable_size_gru_encode feat_embedding masks g =
           Inr (replicate B (replicate M (replicate (hidden_size g) 0)))"
proof -
  let ?m0 = "map (map (map hd)) masks"
  have m0: "rect3 B M T ?m0" by (rule rect3_select0[OF m])
  have s0: "select0 masks = Inr ?m0" by (rule select0_ok[OF m pos(3)])
  have one: "?m0 ! b ! i ! t = 1" if "b < B" "i < M" "t < T" for b i t
    using mask0_nth[OF m pos(3) that] inv that by simp
  have f2: "rect2 B M feat_embedding" using f by (simp add: rect4_def rect3_def rect2_def list_all_length)
  have sel: "masked_select_blocks feat_embedding (masks_for_batching ?m0) =
      Inr (concat (map2 select_rows feat_embedding (masks_for_batching ?m0)))"
    by (rule masked_select_blocks_ok[OF f2 rect2_masks_for_batching[OF m0]])
  have zero: "seq_lens ?m0 ! b ! i = 0" if h: "b < B" "i < M" for b i
  proof -
    have "\<forall>v\<in>set (?m0 ! b ! i). v = 1"
      using one[OF h] rect3_len2[OF m0 h] by (auto simp: in_set_conv_nth)
    then show ?thesis using seq_lens_nth[OF m0 h] sum_padded by simp
  qed
  have "\<forall>x\<in>set (concat (seq_lens ?m0)). x = 0"
    by (rule concat_all[OF rect2_seq_lens[OF m0]]) (rule zero)
  then have lens: "seq_lens_batched (seq_lens ?m0) = []"
    by (simp add: seq_lens_batched_def filter_empty_conv)
  have lf: "length feat_embedding = B" using f by (simp add: rect4_def)
  have shp: "replicate B (replicate (shape1 feat_embedding) (replicate (hidden_size g) (0::real)))
           = replicate B (replicate M (replicate (hidden_size g) 0))"
    using rect4_shape1[OF f] by (cases "B = 0") simp_all
  show ?thesis
    by (simp add: variable_size_gru_encode_def s0 sel lens Let_def lf shp)
qed

text \<open>
  The theorem at two examples of two entities each, with a recurrent unit that raises
  whenever it is called.
\<close>

theorem variable_size_gru_encode_all_invalid_witness:
  "rect4 2 2 2 3 [[[[1, 2, 3], [4, 5, 6]], [[7, 8, 9], [1, 1, 1]]],
                  [[[0, 0, 0], [2, 2, 2]], [[3, 3, 3], [4, 4, 4 :: real]]]] \<and>
   rect4 2 2 2 1 [[[[1], [1]], [[1], [1]]], [[[1], [1]], [[1], [1 :: real]]]] \<and>
   variable_size_gru_encode
     [[[[1, 2, 3], [4, 5, 6]], [[7, 8, 9], [1, 1, 1]]],
      [[[0, 0, 0], [2, 2, 2]], [[3, 3, 3], [4, 4, 4]]]]
     [[[[1], [1]], [[1], [1]]], [[[1], [1]], [[1], [1]]]]
     \<lparr>hidden_size = 2, run = (\<lambda>xs lens. Inl RuntimeError)\<rparr>
   = Inr [[[0, 0], [0, 0]], [[0, 0], [0, 0]]]"
proof -
  have h1: "rect4 2 2 2 3 [[[[1, 2, 3], [4, 5, 6]], [[7, 8, 9], [1, 1, 1]]],
                  [[[0, 0, 0], [2, 2, 2]], [[3, 3, 3], [4, 4, 4 :: real]]]]"
    by (simp add: rect4_def rect3_def rect2_def)
  have h2: "rect4 2 2 2 1 [[[[1], [1]], [[1], [1]]], [[[1], [1]], [[1], [1 :: real]]]]"
    by (simp add: rect4_def rect3_def rect2_def)
  have h3: "\<forall>b<2. \<forall>i<2. \<forall>t<2.
      [[[[1], [1]], [[1], [1]]], [[[1], [1]], [[1], [1 :: real]]]] ! b ! i ! t ! 0 = 1"
    by (simp add: all_less_2)
  have p: "(0::nat) < 2" "(0::nat) < 3" "(0::nat) < 1" by simp_all
  from variable_size_gru_encode_all_invalid[OF h1 h2 p h3,
      of "\<lparr>hidden_size = 2, run = (\<lambda>xs lens. Inl RuntimeError)\<rparr>"]
  show ?thesis using h1 h2 by (simp add: numeral_2_eq_2)
qed

lemma scatter_row_true:
  "length xs = H \<Longrightarrow> length row = H \<Longrightarrow>
   scatter_list scatter0 (replicate H True) xs (row @ rest) = (row, rest)"
proof (induction H arbitrary: xs row)
  case 0 then show ?case by simp
next
  case (Suc H)
  then obtain x xs' r row' where "xs = x # xs'" "row = r # row'"
    by (cases xs; cases row) auto
  then show ?case using Suc by (simp add: scatter0_def)
qed

lemma scatter_row_false:
  "length xs = H \<Longrightarrow> scatter_list scatter0 (replicate H False) xs src = (xs, src)"
proof (induction H arbitrary: xs)
  case 0 then show ?case by simp
next
  case (Suc H)
  then obtain x xs' where "xs = x # xs'" by (cases xs) auto
  then show ?case using Suc by (simp add: scatter0_def)
qed

lemma select_rows_Cons:
  "select_rows (x # xs) (m # ms) = (if m then [x] else []) @ select_rows xs ms"
  by (simp add: select_rows_def)

lemma select_rows_Nil [simp]: "select_rows [] ms = []" "select_rows xs [] = []"
  by (simp_all add: select_rows_def)

lemma count_true_Cons: "count_true (m # ms) = (if m then 1 else 0) + count_true ms"
  by (simp add: count_true_def)

lemma count_true_Nil [simp]: "count_true [] = 0"
  by (simp add: count_true_def)

lemma count_true_append: "count_true (xs @ ys) = count_true xs + count_true ys"
  by (simp add: count_true_def)

lemma count_true_replicate: "count_true (replicate n m) = (if m then n else 0)"
  by (simp add: count_true_def)

lemma scatter_entities:
  assumes "length hs = count_true ms" "list_all (\<lambda>r. length r = H) hs"
  shows "\<exists>R. scatter_list (scatter_list scatter0) (map (replicate H) ms)
                (map (\<lambda>m. replicate H z) ms) (concat hs @ rest) = (R, rest) \<and>
            length R = length ms \<and>
            (\<forall>i<length ms. length (R ! i) = H \<and> (\<not> ms ! i \<longrightarrow> R ! i = replicate H z)) \<and>
            select_rows R ms = hs"
  using assms
proof (induction ms arbitrary: hs)
  case Nil
  then show ?case by simp
next
  case (Cons m ms)
  show ?case
  proof (cases m)
    case True
    with Cons.prems obtain h hs' where hs: "hs = h # hs'" "length h = H"
        "length hs' = count_true ms" "list_all (\<lambda>r. length r = H) hs'"
      by (cases hs) (auto simp: count_true_Cons)
    from Cons.IH[OF hs(3,4)] obtain R where
      R: "scatter_list (scatter_list scatter0) (map (replicate H) ms)
            (map (\<lambda>m. replicate H z) ms) (concat hs' @ rest) = (R, rest)"
         "length R = length ms"
         "\<forall>i<length ms. length (R ! i) = H \<and> (\<not> ms ! i \<longrightarrow> R ! i = replicate H z)"
         "select_rows R ms = hs'"
      by blast
    have first: "scatter_list scatter0 (replicate H True) (replicate H z)
         (h @ concat hs' @ rest) = (h, concat hs' @ rest)"
      by (rule scatter_row_true) (simp_all add: hs(2))
    have eq: "scatter_list (scatter_list scatter0) (map (replicate H) (m # ms))
                (map (\<lambda>m. replicate H z) (m # ms)) (concat hs @ rest) = (h # R, rest)"
      using True first R(1) by (simp add: hs(1))
    have p: "\<forall>i<length (m # ms). length ((h # R) ! i) = H \<and>
                (\<not> (m # ms) ! i \<longrightarrow> (h # R) ! i = replicate H z)"
      using R(3) hs(2) True by (auto simp: nth_Cons split: nat.splits)
    have s: "select_rows (h # R) (m # ms) = hs"
      using True R(4) hs(1) by (simp add: select_rows_Cons)
    show ?thesis using eq p s R(2) by (intro exI[of _ "h # R"]) simp
  next
    case False
    with Cons.prems have hs: "length hs = count_true ms" "list_all (\<lambda>r. length r = H) hs"
      by (auto simp: count_true_Cons)
    from Cons.IH[OF hs] obtain R where
      R: "scatter_list (scatter_list scatter0) (map (replicate H) ms)
            (map (\<lambda>m. replicate H z) ms) (concat hs @ rest) = (R, rest)"
         "length R = length ms"
         "\<forall>i<length ms. length (R ! i) = H \<and> (\<not> ms ! i \<longrightarrow> R ! i = replicate H z)"
         "select_rows R ms = hs"
      by blast
    have first: "scatter_list scatter0 (replicate H False) (replicate H z)
         (concat hs @ rest) = (replicate H z, concat hs @ rest)"
      by (rule scatter_row_false) simp
    have eq: "scatter_list (scatter_list scatter0) (map (replicate H) (m # ms))
                (map (\<lambda>m. replicate H z) (m # ms)) (concat hs @ rest) = (replicate H z # R, rest)"
      using False first R(1) by simp
    have p: "\<forall>i<length (m # ms). length ((replicate H z # R) ! i) = H \<and>
                (\<not> (m # ms) ! i \<longrightarrow> (replicate H z # R) ! i = replicate H z)"
      using R(3) by (auto simp: nth_Cons split: nat.splits)
    have s: "select_rows (replicate H z # R) (m # ms) = hs"
      using False R(4) by (simp add: select_rows_Cons)
    show ?thesis using eq p s R(2) by (intro exI[of _ "replicate H z # R"]) simp
  qed
qed

lemma scatter_batch:
  assumes "length hs = count_true (concat mss)" "list_all (\<lambda>r. length r = H) hs"
  shows "\<exists>RR. scatter_list (scatter_list (scatter_list scatter0)) (map (map (replicate H)) mss)
                (map (map (\<lambda>m. replicate H z)) mss) (concat hs @ rest) = (RR, rest) \<and>
            length RR = length mss \<and>
            (\<forall>b<length mss. length (RR ! b) = length (mss ! b) \<and>
               (\<forall>i<length (mss ! b). length (RR ! b ! i) = H \<and>
                    (\<not> mss ! b ! i \<longrightarrow> RR ! b ! i = replicate H z))) \<and>
            concat (map2 select_rows RR mss) = hs"
  using assms
proof (induction mss arbitrary: hs)
  case Nil
  then show ?case by simp
next
  case (Cons ms mss)
  let ?k = "count_true ms"
  let ?h1 = "take ?k hs" and ?h2 = "drop ?k hs"
  have len: "length hs = ?k + count_true (concat mss)"
    using Cons.prems(1) by (simp add: count_true_append)
  have l1: "length ?h1 = count_true ms" using len by simp
  have l2: "length ?h2 = count_true (concat mss)" using len by simp
  have a1: "list_all (\<lambda>r. length r = H) ?h1" and a2: "list_all (\<lambda>r. length r = H) ?h2"
    using Cons.prems(2) by (auto simp: list_all_iff dest: in_set_takeD in_set_dropD)
  have split: "concat hs @ rest = concat ?h1 @ (concat ?h2 @ rest)"
    by (metis append_assoc append_take_drop_id concat_append)
  from scatter_entities[OF l1 a1, of z "concat ?h2 @ rest"] obtain R where
    R: "scatter_list (scatter_list scatter0) (map (replicate H) ms)
          (map (\<lambda>m. replicate H z) ms) (concat ?h1 @ (concat ?h2 @ rest)) = (R, concat ?h2 @ rest)"
       "length R = length ms"
       "\<forall>i<length ms. length (R ! i) = H \<and> (\<not> ms ! i \<longrightarrow> R ! i = replicate H z)"
       "select_rows R ms = ?h1"
    by blast
  from Cons.IH[OF l2 a2] obtain RR where
    RR: "scatter_list (scatter_list (scatter_list scatter0)) (map (map (replicate H)) mss)
                (map (map (\<lambda>m. replicate H z)) mss) (concat ?h2 @ rest) = (RR, rest)"
        "length RR = length mss"
        "\<forall>b<length mss. length (RR ! b) = length (mss ! b) \<and>
               (\<forall>i<length (mss ! b). length (RR ! b ! i) = H \<and>
                    (\<not> mss ! b ! i \<longrightarrow> RR ! b ! i = replicate H z))"
        "concat (map2 select_rows RR mss) = ?h2"
    by blast
  have eq: "scatter_list (scatter_list (scatter_list scatter0)) (map (map (replicate H)) (ms # mss))
                (map (map (\<lambda>m. replicate H z)) (ms # mss)) (concat hs @ rest) = (R # RR, rest)"
    using R(1) RR(1) by (simp add: split)
  have p: "\<forall>b<length (ms # mss). length ((R # RR) ! b) = length ((ms # mss) ! b) \<and>
               (\<forall>i<length ((ms # mss) ! b). length ((R # RR) ! b ! i) = H \<and>
                    (\<not> (ms # mss) ! b ! i \<longrightarrow> (R # RR) ! b ! i = replicate H z))"
    using R(2,3) RR(3) by (auto simp: nth_Cons split: nat.splits)
  have s: "concat (map2 select_rows (R # RR) (ms # mss)) = hs"
    using R(4) RR(4) by simp
  show ?case using eq p s RR(2) by (intro exI[of _ "R # RR"]) simp
qed

lemma length_select_rows: "length xs = length ms \<Longrightarrow> length (select_rows xs ms) = count_true ms"
proof (induction xs arbitrary: ms)
  case Nil then show ?case by simp
next
  case (Cons x xs)
  then obtain m ms' where "ms = m # ms'" by (cases ms) auto
  then show ?case using Cons by (simp add: select_rows_Cons count_true_Cons)
qed

lemma length_compact:
  "length x = length v \<Longrightarrow> \<forall>b<length v. length (x ! b) = length (v ! b) \<Longrightarrow>
   length (compact_rows x v) = count_true (concat v)"
proof (induction x arbitrary: v)
  case Nil then show ?case by (simp add: compact_rows_def)
next
  case (Cons r x)
  then obtain m v' where v: "v = m # v'" by (cases v) auto
  have "length r = length m" using Cons.prems(2) v by force
  moreover have "length (compact_rows x v') = count_true (concat v')"
    using Cons.prems v by (intro Cons.IH) force+
  ultimately show ?case
    by (simp add: v compact_rows_def count_true_append length_select_rows)
qed

lemma bin_sum_nonneg: "\<forall>v\<in>set xs. v = 0 \<or> v = (1::real) \<Longrightarrow> 0 \<le> sum_list (map (\<lambda>v. 1 - v) xs)"
  by (induction xs) auto

lemma bin_sum:
  "\<forall>v\<in>set xs. v = 0 \<or> v = (1::real) \<Longrightarrow>
   (sum_list (map (\<lambda>v. 1 - v) xs) \<noteq> 0) = list_ex (\<lambda>v. v = 0) xs"
proof (induction xs)
  case Nil then show ?case by simp
next
  case (Cons x xs)
  then have nn: "0 \<le> sum_list (map (\<lambda>v. 1 - v) xs)" by (simp add: bin_sum_nonneg)
  from Cons show ?case using nn by auto
qed

lemma length_lens:
  assumes "\<forall>steps\<in>set (concat m0). \<forall>v\<in>set steps. v = 0 \<or> v = 1"
  shows "length (seq_lens_batched (seq_lens m0)) = count_true (concat (masks_for_batching m0))"
proof -
  have a: "concat (seq_lens m0) = map (\<lambda>steps. sum_list (map (\<lambda>v. 1 - v) steps)) (concat m0)"
    by (simp add: seq_lens_def map_concat)
  have b: "concat (masks_for_batching m0) = map (list_ex (\<lambda>v. v = 0)) (concat m0)"
    by (simp add: masks_for_batching_def map_concat)
  have "filter (\<lambda>steps. sum_list (map (\<lambda>v. 1 - v) steps) \<noteq> 0) (concat m0)
      = filter (list_ex (\<lambda>v. v = 0)) (concat m0)"
  proof (rule filter_cong)
    fix steps assume "steps \<in> set (concat m0)"
    then have "\<forall>v\<in>set steps. v = 0 \<or> v = 1" using assms by blast
    then show "(sum_list (map (\<lambda>v. 1 - v) steps) \<noteq> 0) = list_ex (\<lambda>v. v = 0) steps"
      by (rule bin_sum)
  qed simp
  then show ?thesis
    by (simp add: seq_lens_batched_def count_true_def a b filter_map comp_def)
qed

lemma count_true_scatter_mask:
  "count_true (concat (concat (map (map (replicate H)) mss))) = H * count_true (concat mss)"
proof (induction mss)
  case Nil then show ?case by simp
next
  case (Cons ms mss)
  have "count_true (concat (map (replicate H) ms)) = H * count_true ms"
    by (induction ms) (simp_all add: count_true_append count_true_replicate count_true_Cons)
  then show ?case using Cons by (simp add: count_true_append algebra_simps)
qed

lemma length_concat_rows: "list_all (\<lambda>r. length r = H) h \<Longrightarrow> length (concat h) = length h * H"
  by (induction h) simp_all

lemma compact_none:
  "count_true (concat v) = 0 \<Longrightarrow> length x = length v \<Longrightarrow>
   \<forall>b<length v. length (x ! b) = length (v ! b) \<Longrightarrow> compact_rows x v = []"
  using length_compact by fastforce

lemma rect4_rect2: "rect4 B M T D x \<Longrightarrow> rect2 B M x"
  by (simp add: rect4_def rect3_def rect2_def list_all_length)

lemma rect3_rect2: "rect3 B M T x \<Longrightarrow> rect2 B M x"
  by (simp add: rect3_def rect2_def list_all_length)

lemma rect2_valid_entities: "rect4 B M T F masks \<Longrightarrow> rect2 B M (valid_entities masks)"
  unfolding valid_entities_def by (rule rect2_masks_for_batching[OF rect3_select0])

lemma valid_entities_nth:
  assumes m: "rect4 B M T F masks" and F: "0 < F" and h: "b < B" "i < M"
  shows "valid_entities masks ! b ! i = (\<exists>t<T. masks ! b ! i ! t ! 0 = 0)"
  unfolding valid_entities_def masks_for_batching_nth[OF rect3_select0[OF m] h]
  using mask0_nth[OF m F h] by auto

lemma rect2_lengths:
  "rect2 B M x \<Longrightarrow> rect2 B M v \<Longrightarrow> length x = length v \<and> (\<forall>b<length v. length (x ! b) = length (v ! b))"
  by (simp add: rect2_def list_all_length)

lemma variable_size_gru_encode_char:
  assumes f: "rect4 B M T D feat_embedding" and m: "rect4 B M T F masks"
    and F: "0 < F"
    and bin: "\<forall>b<B. \<forall>i<M. \<forall>t<T. masks ! b ! i ! t ! 0 = 0 \<or> masks ! b ! i ! t ! 0 = 1"
    and g: "compact_lens masks \<noteq> [] \<longrightarrow>
            gru_returns g (compact_rows feat_embedding (valid_entities masks)) (compact_lens masks)"
  shows "\<exists>enc. variable_size_gru_encode feat_embedding masks g = Inr enc \<and>
           rect3 B M (hidden_size g) enc \<and>
           (\<forall>b<B. \<forall>i<M. \<not> valid_entities masks ! b ! i \<longrightarrow> enc ! b ! i = replicate (hidden_size g) 0) \<and>
           (compact_lens masks \<noteq> [] \<longrightarrow>
              run g (compact_rows feat_embedding (valid_entities masks)) (compact_lens masks) =
                Inr (compact_rows enc (valid_entities masks)))"
proof -
  let ?H = "hidden_size g"
  let ?m0 = "map (map (map hd)) masks"
  let ?v = "valid_entities masks"
  let ?batch = "compact_rows feat_embedding ?v"
  let ?lens = "compact_lens masks"
  have m0: "rect3 B M T ?m0" by (rule rect3_select0[OF m])
  have s0: "select0 masks = Inr ?m0" by (rule select0_ok[OF m F])
  have v2: "rect2 B M ?v" by (rule rect2_valid_entities[OF m])
  have f2: "rect2 B M feat_embedding" by (rule rect4_rect2[OF f])
  have lv: "length ?v = B" "\<And>b. b < B \<Longrightarrow> length (?v ! b) = M"
    using v2 by (simp_all add: rect2_def list_all_length)
  have sel: "masked_select_blocks feat_embedding (masks_for_batching ?m0) = Inr ?batch"
    using masked_select_blocks_ok[OF f2 v2] by (simp add: valid_entities_def compact_rows_def)
  have binl: "\<forall>steps\<in>set (concat ?m0). \<forall>v\<in>set steps. v = 0 \<or> v = 1"
  proof (rule concat_all[OF rect3_rect2[OF m0]])
    fix b i assume h: "b < B" "i < M"
    show "\<forall>v\<in>set (?m0 ! b ! i). v = 0 \<or> v = 1"
    proof
      fix v assume "v \<in> set (?m0 ! b ! i)"
      then obtain t where t: "t < T" "v = ?m0 ! b ! i ! t"
        using rect3_len2[OF m0 h] by (auto simp: in_set_conv_nth)
      then have "v = masks ! b ! i ! t ! 0" using mask0_nth[OF m F h t(1)] by simp
      then show "v = 0 \<or> v = 1" using bin h t(1) by simp
    qed
  qed
  have nl: "length ?lens = count_true (concat ?v)"
    using length_lens[OF binl] by (simp add: compact_lens_def valid_entities_def)
  have nb: "length ?batch = count_true (concat ?v)"
    using rect2_lengths[OF f2 v2] by (intro length_compact) auto
  show ?thesis
  proof (cases "?lens = []")
    case True
    let ?enc = "replicate B (replicate M (replicate ?H (0::real)))"
    have lf: "length feat_embedding = B" using f by (simp add: rect4_def)
    have shp: "replicate B (replicate (shape1 feat_embedding) (replicate ?H (0::real))) = ?enc"
      using rect4_shape1[OF f] by (cases "B = 0") simp_all
    have eq: "variable_size_gru_encode feat_embedding masks g = Inr ?enc"
      using True by (simp add: variable_size_gru_encode_def s0 sel Let_def lf shp
          compact_lens_def)
    have r: "rect3 B M ?H ?enc" by (simp add: rect3_def rect2_def list_all_length)
    show ?thesis using eq r True by (intro exI[of _ ?enc]) simp
  next
    case False
    then have n1: "0 < length ?batch" using nl nb by (cases ?lens) auto
    from g False obtain h where h: "run g ?batch ?lens = Inr h" "rect2 (length ?batch) ?H h"
      unfolding gru_returns_def by blast
    have rows: "list_all (\<lambda>r. length r = ?H) h" "length h = count_true (concat ?v)"
      using h(2) nb by (simp_all add: rect2_def)
    have ld: "last_dim g h = ?H"
      using rows n1 nb by (cases h) (auto simp: last_dim_def)
    let ?msk = "map (map (replicate ?H)) ?v"
    have self: "map (map (map (\<lambda>_. 0::real))) ?msk = map (map (\<lambda>m. replicate ?H 0)) ?v"
      by simp
    have cnt: "count_true (concat (concat ?msk)) \<le> length (concat h)"
      by (simp add: count_true_scatter_mask length_concat_rows[OF rows(1)] rows(2))
    from scatter_batch[OF rows(2) rows(1), of 0 "[]"] obtain RR where
      RR: "scatter_list (scatter_list (scatter_list scatter0)) ?msk
             (map (map (\<lambda>m. replicate ?H 0)) ?v) (concat h) = (RR, [])"
          "length RR = length ?v"
          "\<forall>b<length ?v. length (RR ! b) = length (?v ! b) \<and>
               (\<forall>i<length (?v ! b). length (RR ! b ! i) = ?H \<and>
                    (\<not> ?v ! b ! i \<longrightarrow> RR ! b ! i = replicate ?H 0))"
          "concat (map2 select_rows RR ?v) = h"
      by auto
    have eq: "variable_size_gru_encode feat_embedding masks g = Inr RR"
      using False h(1) cnt RR(1) sel
      by (simp add: variable_size_gru_encode_def s0 Let_def ld masked_scatter3_def
          compact_lens_def valid_entities_def comp_def)
    have r: "rect3 B M ?H RR"
      using RR(2,3) lv by (intro rect3_I) auto
    have z: "\<forall>b<B. \<forall>i<M. \<not> ?v ! b ! i \<longrightarrow> RR ! b ! i = replicate ?H 0"
      using RR(3) lv by auto
    have c: "compact_rows RR ?v = h" using RR(4) by (simp add: compact_rows_def)
    show ?thesis using eq r z c h(1) by (intro exI[of _ RR]) simp
  qed
qed

lemma gru_returns_example: "length lens = length xs \<Longrightarrow> gru_returns example_gru xs lens"
  by (auto simp: gru_returns_def example_gru_def rect2_def list_all_iff dest!: set_zip_leftD)

text \<open>
  Claim C6. For feature and mask tensors of matching batch, entity and time axes, masks
  with values 0 and 1 and a recurrent unit that gives one hidden state per sequence of
  the compacted batch,
  \<open>variable_size_gru_encode\<close> returns an encoding of shape
  \<open>[batch, entity_count, hidden_size]\<close> that is the zero vector at every entity without a
  valid time step, and whose entries at the valid entities, read in row-major order, are
  the hidden states that the recurrent unit gives for the compacted batch: each hidden
  state is back at the position of its entity.
\<close>

theorem variable_size_gru_encode_zero_at_invalid:
  assumes "rect4 B M T D feat_embedding" and "rect4 B M T F masks"
    and "0 < T" "0 < D" "0 < F"
    and "\<forall>b<B. \<forall>i<M. \<forall>t<T. masks ! b ! i ! t ! 0 = 0 \<or> masks ! b ! i ! t ! 0 = 1"
    and "compact_lens masks \<noteq> [] \<longrightarrow>
         gru_returns g (compact_rows feat_embedding (valid_entities masks)) (compact_lens masks)"
  shows "\<exists>enc. variable_size_gru_encode feat_embedding masks g = Inr enc \<and>
           rect3 B M (hidden_size g) enc \<and>
           (\<forall>b<B. \<forall>i<M. (\<forall>t<T. masks ! b ! i ! t ! 0 = 1) \<longrightarrow>
                enc ! b ! i = replicate (hidden_size g) 0) \<and>
           (compact_lens masks \<noteq> [] \<longrightarrow>
              run g (compact_rows feat_embedding (valid_entities masks)) (compact_lens masks) =
                Inr (compact_rows enc (valid_entities masks)))"
proof -
  from variable_size_gru_encode_char[OF assms(1,2,5,6,7)] obtain enc where
    e: "variable_size_gru_encode feat_embedding masks g = Inr enc"
       "rect3 B M (hidden_size g) enc"
       "\<forall>b<B. \<forall>i<M. \<not> valid_entities masks ! b ! i \<longrightarrow> enc ! b ! i = replicate (hidden_size g) 0"
       "compact_lens masks \<noteq> [] \<longrightarrow>
              run g (compact_rows feat_embedding (valid_entities masks)) (compact_lens masks) =
                Inr (compact_rows enc (valid_entities masks))"
    by blast
  have "\<forall>b<B. \<forall>i<M. (\<forall>t<T. masks ! b ! i ! t ! 0 = 1) \<longrightarrow>
                enc ! b ! i = replicate (hidden_size g) 0"
    using e(3) valid_entities_nth[OF assms(2,5)] by fastforce
  then show ?thesis using e by blast
qed

lemma encode_example:
  "variable_size_gru_encode
        [[[[1, 2], [3, 4]], [[5, 6], [7, 8]]], [[[1, 2], [3, 4]], [[5, 6], [70, 8]]]]
        [[[[1], [1]], [[0], [1]]], [[[0], [1]], [[0], [0]]]] example_gru = Inr [[[0], [11]], [[3], [89]]]"
  by (simp add: variable_size_gru_encode_def select0_def masks_for_batching_def
      masked_select_blocks_def bdim_def shape1_def expand_def select_rows_def seq_lens_def
      seq_lens_batched_def example_gru_def last_dim_def masked_scatter3_def count_true_def
      scatter0_def)

text \<open>
  The theorem at two examples of two entities each, where the first entity of the first
  example has no valid time step.
\<close>

theorem variable_size_gru_encode_zero_at_invalid_witness:
  "rect4 2 2 2 2 [[[[1, 2], [3, 4]], [[5, 6], [7, 8]]], [[[1, 2], [3, 4]], [[5, 6], [70, 8 :: real]]]] \<and>
   rect4 2 2 2 1 [[[[1], [1]], [[0], [1]]], [[[0], [1]], [[0], [0 :: real]]]] \<and>
   gru_returns example_gru
       (compact_rows [[[[1, 2], [3, 4]], [[5, 6], [7, 8]]], [[[1, 2], [3, 4]], [[5, 6], [70, 8]]]]
          (valid_entities [[[[1], [1]], [[0], [1]]], [[[0], [1]], [[0], [0]]]]))
       (compact_lens [[[[1], [1]], [[0], [1]]], [[[0], [1]], [[0], [0]]]]) \<and>
   variable_size_gru_encode
        [[[[1, 2], [3, 4]], [[5, 6], [7, 8]]], [[[1, 2], [3, 4]], [[5, 6], [70, 8]]]]
        [[[[1], [1]], [[0], [1]]], [[[0], [1]], [[0], [0]]]] example_gru
     = Inr [[[0], [11]], [[3], [89]]] \<and>
   run example_gru
       (compact_rows [[[[1, 2], [3, 4]], [[5, 6], [7, 8]]], [[[1, 2], [3, 4]], [[5, 6], [70, 8]]]]
          (valid_entities [[[[1], [1]], [[0], [1]]], [[[0], [1]], [[0], [0]]]]))
       (compact_lens [[[[1], [1]], [[0], [1]]], [[[0], [1]], [[0], [0]]]])
     = Inr [[11], [3], [89]]"
proof -
  have h1: "rect4 2 2 2 2 [[[[1, 2], [3, 4]], [[5, 6], [7, 8]]],
                           [[[1, 2], [3, 4]], [[5, 6], [70, 8 :: real]]]]"
    by (simp add: rect4_def rect3_def rect2_def)
  have h2: "rect4 2 2 2 1 [[[[1], [1]], [[0], [1]]], [[[0], [1]], [[0], [0 :: real]]]]"
    by (simp add: rect4_def rect3_def rect2_def)
  have h3: "\<forall>b<2. \<forall>i<2. \<forall>t<2.
      [[[[1], [1]], [[0], [1]]], [[[0], [1]], [[0], [0 :: real]]]] ! b ! i ! t ! 0 = 0 \<or>
      [[[[1], [1]], [[0], [1]]], [[[0], [1]], [[0], [0 :: real]]]] ! b ! i ! t ! 0 = 1"
    by (simp add: all_less_2)
  have p: "(0::nat) < 2" "(0::nat) < 2" "(0::nat) < 1" by simp_all
  have r: "run example_gru
       (compact_rows [[[[1, 2], [3, 4]], [[5, 6], [7, 8]]], [[[1, 2], [3, 4]], [[5, 6], [70, 8]]]]
          (valid_entities [[[[1], [1]], [[0], [1]]], [[[0], [1]], [[0], [0]]]]))
       (compact_lens [[[[1], [1]], [[0], [1]]], [[[0], [1]], [[0], [0]]]])
     = Inr [[11], [3], [89]]"
    by (simp add: example_gru_def compact_rows_def valid_entities_def compact_lens_def
        masks_for_batching_def select_rows_def seq_lens_def seq_lens_batched_def)
  have g: "gru_returns example_gru
       (compact_rows [[[[1, 2], [3, 4]], [[5, 6], [7, 8]]], [[[1, 2], [3, 4]], [[5, 6], [70, 8]]]]
          (valid_entities [[[[1], [1]], [[0], [1]]], [[[0], [1]], [[0], [0]]]]))
       (compact_lens [[[[1], [1]], [[0], [1]]], [[[0], [1]], [[0], [0]]]])"
    by (rule gru_returns_example)
       (simp add: compact_rows_def valid_entities_def compact_lens_def
        masks_for_batching_def select_rows_def seq_lens_def seq_lens_batched_def)
  from variable_size_gru_encode_zero_at_invalid[OF h1 h2 p h3] g
  show ?thesis using h1 h2 encode_example r by simp
qed

text \<open>
  A feature embedding of shape \<open>[1, 2, 2, 2]\<close> with a mask of shape \<open>[1, 2, 2, 3]\<close>: the
  shapes differ on the last axis, neither size is 1, and the call returns an encoding.
\<close>

theorem variable_size_gru_encode_feature_axis_unchecked:
  "variable_size_gru_encode [[[[1, 2], [3, 4]], [[5, 6], [7, 8]]]]
     [[[[0, 0, 0], [1, 1, 1]], [[1, 1, 1], [1, 1, 1]]]] example_gru = Inr [[[3], [0]]]"
  by (simp add: variable_size_gru_encode_def select0_def masks_for_batching_def
      masked_select_blocks_def bdim_def shape1_def expand_def select_rows_def seq_lens_def
      seq_lens_batched_def example_gru_def last_dim_def masked_scatter3_def count_true_def
      scatter0_def)

lemma encode_not_broadcastable:
  assumes f: "rect4 B M T D feat_embedding" and m: "rect4 B' M' T' F masks" and F: "0 < F"
    and nb: "bdim B B' = None \<or> (0 < B \<and> 0 < B' \<and> bdim M M' = None)"
  shows "variable_size_gru_encode feat_embedding masks g = Inl RuntimeError"
proof -
  let ?m0 = "map (map (map hd)) masks"
  have s0: "select0 masks = Inr ?m0" by (rule select0_ok[OF m F])
  have v2: "rect2 B' M' (masks_for_batching ?m0)"
    by (rule rect2_masks_for_batching[OF rect3_select0[OF m]])
  have l: "length feat_embedding = B" "length (masks_for_batching ?m0) = B'"
    using f v2 by (simp_all add: rect4_def rect2_def)
  have "masked_select_blocks feat_embedding (masks_for_batching ?m0) = Inl RuntimeError"
  proof (cases "bdim B B' = None")
    case True
    then show ?thesis by (simp add: masked_select_blocks_def l)
  next
    case False
    then have h: "0 < B" "0 < B'" "bdim M M' = None" using nb by auto
    have "shape1 feat_embedding = M" "shape1 (masks_for_batching ?m0) = M'"
      using rect4_shape1[OF f h(1)] rect2_shape1[OF v2 h(2)] by simp_all
    then show ?thesis using h(3) by (simp add: masked_select_blocks_def l split: option.splits)
  qed
  then show ?thesis by (simp add: variable_size_gru_encode_def s0 Let_def)
qed

lemma encode_reads_column0:
  assumes m: "rect4 B M T F masks" and m': "rect4 B M T F' masks'" and F: "0 < F" "0 < F'"
    and eq: "\<forall>b<B. \<forall>i<M. \<forall>t<T. masks ! b ! i ! t ! 0 = masks' ! b ! i ! t ! 0"
  shows "variable_size_gru_encode feat_embedding masks g =
         variable_size_gru_encode feat_embedding masks' g"
proof -
  have "map (map (map hd)) masks = map (map (map hd)) masks'"
    by (rule tensor3_eqI[OF rect3_select0[OF m] rect3_select0[OF m']])
       (simp add: mask0_nth[OF m F(1)] mask0_nth[OF m' F(2)] eq)
  then show ?thesis
    by (simp add: variable_size_gru_encode_def select0_ok[OF m F(1)] select0_ok[OF m' F(2)])
qed

text \<open>
  Claim C9, as amended. A mask whose batch or entity axis cannot be broadcast against
  that of the feature embedding (the sizes differ and neither is 1) makes the call raise.
  The last axis of the mask is not compared with that of the features: only its index 0
  is read, and two masks that agree there give the same result, whatever the sizes of
  their last axes.
\<close>

theorem variable_size_gru_encode_shape_checks:
  "(rect4 B M T D feat_embedding \<and> rect4 B' M' T' F masks \<and> 0 < F \<and>
      ((B \<noteq> B' \<and> B \<noteq> 1 \<and> B' \<noteq> 1) \<or> (0 < B \<and> 0 < B' \<and> M \<noteq> M' \<and> M \<noteq> 1 \<and> M' \<noteq> 1))
    \<longrightarrow> variable_size_gru_encode feat_embedding masks g = Inl RuntimeError) \<and>
   (rect4 B2 M2 T2 F1 masks1 \<and> rect4 B2 M2 T2 F2 masks2 \<and> 0 < F1 \<and> 0 < F2 \<and>
      (\<forall>b<B2. \<forall>i<M2. \<forall>t<T2. masks1 ! b ! i ! t ! 0 = masks2 ! b ! i ! t ! 0)
    \<longrightarrow> variable_size_gru_encode feat_embedding2 masks1 g2 =
        variable_size_gru_encode feat_embedding2 masks2 g2)"
proof (intro conjI impI)
  assume a: "rect4 B M T D feat_embedding \<and> rect4 B' M' T' F masks \<and> 0 < F \<and>
      ((B \<noteq> B' \<and> B \<noteq> 1 \<and> B' \<noteq> 1) \<or> (0 < B \<and> 0 < B' \<and> M \<noteq> M' \<and> M \<noteq> 1 \<and> M' \<noteq> 1))"
  then have nb: "bdim B B' = None \<or> (0 < B \<and> 0 < B' \<and> bdim M M' = None)"
    by (auto simp: bdim_def)
  show "variable_size_gru_encode feat_embedding masks g = Inl RuntimeError"
    using a by (intro encode_not_broadcastable[OF _ _ _ nb]) auto
next
  assume a: "rect4 B2 M2 T2 F1 masks1 \<and> rect4 B2 M2 T2 F2 masks2 \<and> 0 < F1 \<and> 0 < F2 \<and>
      (\<forall>b<B2. \<forall>i<M2. \<forall>t<T2. masks1 ! b ! i ! t ! 0 = masks2 ! b ! i ! t ! 0)"
  show "variable_size_gru_encode feat_embedding2 masks1 g2 =
        variable_size_gru_encode feat_embedding2 masks2 g2"
    using a by (intro encode_reads_column0[of B2 M2 T2 F1 masks1 F2 masks2]) auto
qed

text \<open>
  The theorem at a mask of three examples for features of two, and at two masks with last
  axes of sizes 1 and 2 that agree at index 0.
\<close>

theorem variable_size_gru_encode_shape_checks_witness:
  "(rect4 2 1 1 1 [[[[1]]], [[[2 :: real]]]] \<and> rect4 3 1 1 1 [[[[0]]], [[[0]]], [[[0 :: real]]]] \<and>
    variable_size_gru_encode [[[[1]]], [[[2]]]] [[[[0]]], [[[0]]], [[[0]]]] example_gru
      = Inl RuntimeError) \<and>
   (rect4 1 2 2 1 [[[[0], [1]], [[1], [1 :: real]]]] \<and>
    rect4 1 2 2 2 [[[[0, 5], [1, 5]], [[1, 7], [1, 7 :: real]]]] \<and>
    variable_size_gru_encode [[[[1, 2], [3, 4]], [[5, 6], [7, 8]]]]
        [[[[0], [1]], [[1], [1]]]] example_gru =
    variable_size_gru_encode [[[[1, 2], [3, 4]], [[5, 6], [7, 8]]]]
        [[[[0, 5], [1, 5]], [[1, 7], [1, 7]]]] example_gru)"
proof -
  have a1: "rect4 2 1 1 1 [[[[1]]], [[[2 :: real]]]]" by (simp add: rect4_def rect3_def rect2_def)
  have a2: "rect4 3 1 1 1 [[[[0]]], [[[0]]], [[[0 :: real]]]]"
    by (simp add: rect4_def rect3_def rect2_def)
  have b1: "rect4 1 2 2 1 [[[[0], [1]], [[1], [1 :: real]]]]"
    by (simp add: rect4_def rect3_def rect2_def)
  have b2: "rect4 1 2 2 2 [[[[0, 5], [1, 5]], [[1, 7], [1, 7 :: real]]]]"
    by (simp add: rect4_def rect3_def rect2_def)
  have b3: "\<forall>b<1. \<forall>i<2. \<forall>t<2. [[[[0], [1]], [[1], [1 :: real]]]] ! b ! i ! t ! 0 =
      [[[[0, 5], [1, 5]], [[1, 7], [1, 7 :: real]]]] ! b ! i ! t ! 0"
    by (simp add: all_less_2)
  note inst = variable_size_gru_encode_shape_checks[of 2 1 1 1 "[[[[1]]], [[[2]]]]" 3 1 1 1
      "[[[[0]]], [[[0]]], [[[0]]]]" example_gru 1 2 2 1 "[[[[0], [1]], [[1], [1]]]]" 2
      "[[[[0, 5], [1, 5]], [[1, 7], [1, 7]]]]" "[[[[1, 2], [3, 4]], [[5, 6], [7, 8]]]]" example_gru]
  show ?thesis using inst a1 a2 b1 b2 b3 by simp
qed

subsection \<open>The goal-conditioned aggregator\<close>

lemma fin_or_ninf_cases: "fin_or_ninf x \<Longrightarrow> (\<exists>a. x = Fin a) \<or> x = NInf"
  by (cases x) auto

lemma xmax_list_fin:
  "list_all fin_or_ninf xs \<Longrightarrow>
   fin_or_ninf (xmax_list xs) \<and> ((\<exists>a. Fin a \<in> set xs) \<longrightarrow> (\<exists>M. xmax_list xs = Fin M))"
proof (induction xs)
  case Nil then show ?case by (simp add: xmax_list_def)
next
  case (Cons x xs)
  then have ih: "fin_or_ninf (xmax_list xs)"
    "(\<exists>a. Fin a \<in> set xs) \<longrightarrow> (\<exists>M. xmax_list xs = Fin M)" and x: "fin_or_ninf x"
    by auto
  have step: "xmax_list (x # xs) = xmax x (xmax_list xs)" by (simp add: xmax_list_def)
  show ?case
    using fin_or_ninf_cases[OF x] fin_or_ninf_cases[OF ih(1)] ih(2)
    by (auto simp: step)
qed

lemma xsub_fin: "fin_or_ninf y \<Longrightarrow> fin_or_ninf (xsub y (Fin c))"
  by (cases y) (auto simp: xsub_def)

lemma prob_of_xsub: "fin_or_ninf y \<Longrightarrow> prob_of (xsub y (Fin c)) = prob_of y * exp (- c)"
  by (cases y) (auto simp: xsub_def exp_diff exp_minus field_simps)

lemma xexp_prob_of: "fin_or_ninf y \<Longrightarrow> xexp y = Fin (prob_of y)"
  by (cases y) auto

lemma xsum_xexp:
  "list_all fin_or_ninf ys \<Longrightarrow> xsum (map xexp ys) = Fin (sum_list (map prob_of ys))"
proof (induction ys)
  case Nil then show ?case by (simp add: xsum_def)
next
  case (Cons y ys)
  then have "xsum (map xexp ys) = Fin (sum_list (map prob_of ys))" "fin_or_ninf y" by auto
  then show ?case by (simp add: xsum_def xexp_prob_of)
qed

lemma prob_of_nonneg: "0 \<le> prob_of y"
  by (cases y) auto

lemma sum_prob_of_nonneg: "0 \<le> sum_list (map prob_of ys)"
  by (induction ys) (auto simp: prob_of_nonneg)

lemma sum_prob_of_pos: "Fin a \<in> set ys \<Longrightarrow> 0 < sum_list (map prob_of ys)"
proof (induction ys)
  case Nil then show ?case by simp
next
  case (Cons y ys)
  show ?case
  proof (cases "y = Fin a")
    case True
    then show ?thesis using sum_prob_of_nonneg[of ys] by (simp add: add_pos_nonneg)
  next
    case False
    then have "0 < sum_list (map prob_of ys)" using Cons by auto
    then show ?thesis using prob_of_nonneg[of y] by (simp add: add_nonneg_pos)
  qed
qed

lemma sum_prob_of_shift:
  "list_all fin_or_ninf ys \<Longrightarrow>
   sum_list (map prob_of (map (\<lambda>y. xsub y (Fin c)) ys)) = sum_list (map prob_of ys) * exp (- c)"
  by (induction ys) (auto simp: prob_of_xsub algebra_simps)

lemma log_softmax_probs:
  assumes fin: "list_all fin_or_ninf xs" and some: "Fin a \<in> set xs"
  shows "xsum (map xexp (log_softmax xs)) = Fin 1"
    and "list_all fin_or_ninf (log_softmax xs)"
    and "\<forall>i<length xs. xs ! i = NInf \<longrightarrow> xexp (log_softmax xs ! i) = Fin 0"
    and "length (log_softmax xs) = length xs"
proof -
  from xmax_list_fin[OF fin] some obtain M where M: "xmax_list xs = Fin M" by blast
  let ?sh = "map (\<lambda>x. xsub x (Fin M)) xs"
  let ?S = "sum_list (map prob_of ?sh)"
  have fsh: "list_all fin_or_ninf ?sh" using fin by (simp add: list_all_iff xsub_fin)
  have "Fin (a - M) \<in> set ?sh" using some by (force simp: xsub_def)
  then have S: "0 < ?S" by (rule sum_prob_of_pos)
  have s: "xsum (map xexp ?sh) = Fin ?S" by (rule xsum_xexp[OF fsh])
  have ls: "log_softmax xs = map (\<lambda>x. xsub x (Fin (ln ?S))) ?sh"
    using S by (simp add: log_softmax_def Let_def M s del: map_map)
  show f: "list_all fin_or_ninf (log_softmax xs)"
    unfolding ls using fsh by (simp add: list_all_iff xsub_fin)
  have "sum_list (map prob_of (log_softmax xs)) = ?S * exp (- ln ?S)"
    unfolding ls by (rule sum_prob_of_shift[OF fsh])
  also have "\<dots> = 1" using S by (simp add: exp_minus)
  finally show "xsum (map xexp (log_softmax xs)) = Fin 1"
    using xsum_xexp[OF f] by simp
  show "\<forall>i<length xs. xs ! i = NInf \<longrightarrow> xexp (log_softmax xs ! i) = Fin 0"
    unfolding ls by (simp add: xsub_def)
  show "length (log_softmax xs) = length xs" unfolding ls by simp
qed

lemma log_softmax_all_masked: "log_softmax [NInf] = [NaN]"
  by (simp add: log_softmax_def xmax_list_def xsub_def xsum_def)

lemma bind_err_Inr: "bind_err (Inr x) f = f x"
  by (simp add: bind_err_def)

lemma bind_err_Inl: "bind_err (Inl e) f = Inl e"
  by (simp add: bind_err_def)

lemma map_err_ok:
  "\<forall>x\<in>set xs. \<exists>y. f x = Inr y \<and> P y \<Longrightarrow>
   \<exists>ys. map_err f xs = Inr ys \<and> length ys = length xs \<and> list_all P ys"
proof (induction xs)
  case Nil then show ?case by simp
next
  case (Cons x xs)
  then obtain y ys where "f x = Inr y" "P y" "map_err f xs = Inr ys" "length ys = length xs"
      "list_all P ys"
    by auto
  then show ?case by simp
qed

lemma linear_apply_ok:
  assumes "linear_ok l n m" "length x = n"
  shows "\<exists>y. linear_apply l x = Inr y \<and> length y = m"
  using assms by (auto simp: linear_apply_def linear_ok_def rect2_def)

lemma goal_header_ok:
  assumes l1: "linear_ok (goal_h1 gc) n H1" and l2: "linear_ok (goal_h2 gc) H1 H2"
    and l3: "linear_ok (goal_op gc) H2 1" and x: "length x = n"
  shows "\<exists>y. goal_header gc x = Inr y \<and> length y = 1"
proof -
  from linear_apply_ok[OF l1 x] obtain a where a: "linear_apply (goal_h1 gc) x = Inr a" "length a = H1"
    by blast
  from linear_apply_ok[OF l2, of "map leaky_relu a"] a(2) obtain b where
    b: "linear_apply (goal_h2 gc) (map leaky_relu a) = Inr b" "length b = H2"
    by auto
  from linear_apply_ok[OF l3, of "map leaky_relu b"] b(2) obtain c where
    c: "linear_apply (goal_op gc) (map leaky_relu b) = Inr c" "length c = 1"
    by auto
  show ?thesis using a b c by (simp add: goal_header_def bind_err_Inr)
qed

lemma set_select_rows: "set (select_rows xs ms) \<subseteq> set xs"
  by (auto simp: select_rows_def dest!: set_zip_leftD split: if_splits)

lemma set_compact_rows: "set (compact_rows x v) \<subseteq> set (concat x)"
proof -
  have "\<And>p. p \<in> set (zip x v) \<Longrightarrow> set (select_rows (fst p) (snd p)) \<subseteq> set (concat x)"
    using set_select_rows by (fastforce dest: set_zip_leftD)
  then show ?thesis unfolding compact_rows_def by fastforce
qed

lemma scatter_scores:
  assumes "length scores = count_true (concat valid)" "list_all (\<lambda>r. length r = 1) scores"
  shows "\<exists>RR. masked_scatter3 (map (map (map (\<lambda>_. 0))) (map (map (\<lambda>m. [m])) valid))
                 (map (map (\<lambda>m. [m])) valid) (concat scores) = Inr RR \<and>
               length RR = length valid \<and>
               (\<forall>b<length valid. length (RR ! b) = length (valid ! b))"
proof -
  have e1: "map (map (\<lambda>m. [m])) valid = map (map (replicate 1)) valid" by simp
  have e2: "map (map (map (\<lambda>_. 0))) (map (map (replicate 1)) valid)
          = map (map (\<lambda>m. replicate 1 0)) valid" by simp
  have cnt: "count_true (concat (concat (map (map (replicate 1)) valid))) \<le> length (concat scores)"
    using assms(1) by (simp add: count_true_scatter_mask length_concat_rows[OF assms(2)])
  from scatter_batch[OF assms, of 0 "[]"] obtain RR where
    RR: "scatter_list (scatter_list (scatter_list scatter0)) (map (map (replicate 1)) valid)
           (map (map (\<lambda>m. replicate 1 0)) valid) (concat scores) = (RR, [])"
        "length RR = length valid"
        "\<forall>b<length valid. length (RR ! b) = length (valid ! b) \<and>
               (\<forall>i<length (valid ! b). length (RR ! b ! i) = 1 \<and>
                    (\<not> valid ! b ! i \<longrightarrow> RR ! b ! i = replicate 1 0))"
    by auto
  have "masked_scatter3 (map (map (\<lambda>m. replicate 1 0)) valid) (map (map (replicate 1)) valid)
         (concat scores) = Inr RR"
    using cnt RR(1) by (simp add: masked_scatter3_def)
  then show ?thesis unfolding e1 e2 using RR(2,3) by blast
qed

lemma rect2_I: "length t = n \<Longrightarrow> (\<And>i. i < n \<Longrightarrow> length (t ! i) = m) \<Longrightarrow> rect2 n m t"
  by (simp add: rect2_def list_all_length)

lemma compute_goal_probs_char:
  assumes t: "rect2 B Dt target" and ne: "rect3 B N Dn node_encodings"
    and nm: "rect2 B N node_masks"
    and l1: "linear_ok (goal_h1 gc) (Dt + Dn) H1" and l2: "linear_ok (goal_h2 gc) H1 H2"
    and l3: "linear_ok (goal_op gc) H2 1"
  shows "\<exists>ops. rect2 B N ops \<and>
           compute_goal_probs gc target node_encodings node_masks =
             Inr (map log_softmax (map2 (map2 (\<lambda>a b. xadd (Fin a) b)) ops
                    (map (map (\<lambda>v. xlog (Fin (1 - v)))) node_masks)))"
proof -
  let ?valid = "map (map (\<lambda>v. v = 0)) node_masks"
  have lB: "length target = B" "length node_encodings = B" "length node_masks = B"
    using t ne nm by (simp_all add: rect2_def rect3_def)
  have sh: "map (replicate (shape1 node_encodings)) target = map (replicate N) target"
    using rect3_shape1[OF ne] lB by (cases "B = 0") simp_all
  let ?enc = "map2 (map2 (@)) (map (replicate N) target) node_encodings"
  have cat: "cat2 (map (replicate N) target) node_encodings = Inr ?enc"
  proof -
    have "map length (map (replicate N) target) = map length node_encodings"
      by (rule nth_equalityI) (simp_all add: lB rect3_len1[OF ne])
    then show ?thesis by (simp add: cat2_def)
  qed
  have enc3: "rect3 B N (Dt + Dn) ?enc"
    by (rule rect3_I) (simp_all add: lB rect3_len1[OF ne] rect3_len2[OF ne] rect2_nth[OF t])
  have v2: "rect2 B N ?valid" using nm by (simp add: rect2_def list_all_length)
  have sel: "masked_select_blocks ?enc ?valid = Inr (compact_rows ?enc ?valid)"
    using masked_select_blocks_ok[OF rect3_rect2[OF enc3] v2] by (simp add: compact_rows_def)
  have rows: "\<forall>x\<in>set (compact_rows ?enc ?valid). length x = Dt + Dn"
  proof
    fix x assume "x \<in> set (compact_rows ?enc ?valid)"
    then have "x \<in> set (concat ?enc)" by (rule subsetD[OF set_compact_rows])
    moreover have "\<forall>x\<in>set (concat ?enc). length x = Dt + Dn"
      by (rule concat_all[OF rect3_rect2[OF enc3]]) (simp add: rect3_len2[OF enc3])
    ultimately show "length x = Dt + Dn" by blast
  qed
  have "\<forall>x\<in>set (compact_rows ?enc ?valid). \<exists>y. goal_header gc x = Inr y \<and> length y = 1"
    using rows goal_header_ok[OF l1 l2 l3] by blast
  from map_err_ok[OF this] obtain scores where
    sc: "map_err (goal_header gc) (compact_rows ?enc ?valid) = Inr scores"
        "length scores = length (compact_rows ?enc ?valid)"
        "list_all (\<lambda>r. length r = 1) scores"
    by blast
  have n: "length scores = count_true (concat ?valid)"
    using sc(2) rect2_lengths[OF rect3_rect2[OF enc3] v2] length_compact[of "?enc" "?valid"] by auto
  from scatter_scores[OF n sc(3)] obtain RR where
    RR: "masked_scatter3 (map (map (map (\<lambda>_. 0))) (map (map (\<lambda>m. [m])) ?valid))
                 (map (map (\<lambda>m. [m])) ?valid) (concat scores) = Inr RR"
        "length RR = length ?valid"
        "\<forall>b<length ?valid. length (RR ! b) = length (?valid ! b)"
    by blast
  let ?ops = "map (map hd) RR"
  have ops: "rect2 B N ?ops"
    using RR(2,3) lB rect2_nth[OF nm] by (intro rect2_I) auto
  have "compute_goal_probs gc target node_encodings node_masks =
             Inr (map log_softmax (map2 (map2 (\<lambda>a b. xadd (Fin a) b)) ?ops
                    (map (map (\<lambda>v. xlog (Fin (1 - v)))) node_masks)))"
    by (simp only: compute_goal_probs_def Let_def sh cat bind_err_Inr sel sc(1) RR(1))
  then show ?thesis using ops by blast
qed

lemma masked_logits:
  assumes len: "length ops = N" "length ms = N"
    and bin: "\<forall>n<N. ms ! n = 0 \<or> ms ! n = (1::real)"
  shows "list_all fin_or_ninf (map2 (\<lambda>a b. xadd (Fin a) b) ops (map (\<lambda>v. xlog (Fin (1 - v))) ms))"
    and "\<forall>n<N. ms ! n = 1 \<longrightarrow>
           map2 (\<lambda>a b. xadd (Fin a) b) ops (map (\<lambda>v. xlog (Fin (1 - v))) ms) ! n = NInf"
    and "\<forall>n<N. ms ! n = 0 \<longrightarrow>
           map2 (\<lambda>a b. xadd (Fin a) b) ops (map (\<lambda>v. xlog (Fin (1 - v))) ms) ! n = Fin (ops ! n)"
    and "length (map2 (\<lambda>a b. xadd (Fin a) b) ops (map (\<lambda>v. xlog (Fin (1 - v))) ms)) = N"
proof -
  let ?l = "map2 (\<lambda>a b. xadd (Fin a) b) ops (map (\<lambda>v. xlog (Fin (1 - v))) ms)"
  show l: "length ?l = N" using len by simp
  have nth: "?l ! n = xadd (Fin (ops ! n)) (xlog (Fin (1 - ms ! n)))" if "n < N" for n
    using that len by simp
  show m: "\<forall>n<N. ms ! n = 1 \<longrightarrow> ?l ! n = NInf" using nth by simp
  show v: "\<forall>n<N. ms ! n = 0 \<longrightarrow> ?l ! n = Fin (ops ! n)" using nth by simp
  have a: "\<forall>n<N. fin_or_ninf (?l ! n)"
  proof (intro allI impI)
    fix n assume n: "n < N"
    then show "fin_or_ninf (?l ! n)" using bin m v by (cases "ms ! n = 0") auto
  qed
  show "list_all fin_or_ninf ?l" unfolding list_all_length l by (rule a)
qed

text \<open>
  Claim C1, as amended. For encodings and a node mask of matching shapes, a mask with
  values 0 and 1 and header layers of matching sizes, \<open>compute_goal_probs\<close> returns
  log-probabilities of shape \<open>[batch, max_nodes]\<close>; for every example that has at least one
  valid node (mask 0), the exponentiated entries sum to 1 along the node axis and the
  exponentiated entry at every masked node (mask 1) is exactly 0. Finite floats are
  taken as real numbers here.
\<close>

theorem compute_goal_probs_normalised:
  assumes "rect2 B Dt target" and "rect3 B N Dn node_encodings" and "rect2 B N node_masks"
    and "linear_ok (goal_h1 gc) (Dt + Dn) H1" and "linear_ok (goal_h2 gc) H1 H2"
    and "linear_ok (goal_op gc) H2 1"
    and bin: "\<forall>b<B. \<forall>n<N. node_masks ! b ! n = 0 \<or> node_masks ! b ! n = 1"
  shows "\<exists>P. compute_goal_probs gc target node_encodings node_masks = Inr P \<and> rect2 B N P \<and>
           (\<forall>b<B. (\<exists>n<N. node_masks ! b ! n = 0) \<longrightarrow>
               xsum (map xexp (P ! b)) = Fin 1 \<and>
               (\<forall>n<N. node_masks ! b ! n = 1 \<longrightarrow> xexp (P ! b ! n) = Fin 0))"
proof -
  from compute_goal_probs_char[OF assms(1-6)] obtain ops where
    ops: "rect2 B N ops"
    and eq: "compute_goal_probs gc target node_encodings node_masks =
             Inr (map log_softmax (map2 (map2 (\<lambda>a b. xadd (Fin a) b)) ops
                    (map (map (\<lambda>v. xlog (Fin (1 - v)))) node_masks)))"
    by blast
  let ?logits = "\<lambda>b. map2 (\<lambda>a b. xadd (Fin a) b) (ops ! b) (map (\<lambda>v. xlog (Fin (1 - v))) (node_masks ! b))"
  let ?P = "map log_softmax (map2 (map2 (\<lambda>a b. xadd (Fin a) b)) ops
                    (map (map (\<lambda>v. xlog (Fin (1 - v)))) node_masks))"
  have lB: "length ops = B" "length node_masks = B" using ops assms(3) by (simp_all add: rect2_def)
  have Pb: "?P ! b = log_softmax (?logits b)" if "b < B" for b using that lB by simp
  have lP: "length ?P = B" using lB by simp
  have len: "length (ops ! b) = N" "length (node_masks ! b) = N" if "b < B" for b
    using that rect2_nth[OF ops] rect2_nth[OF assms(3)] by simp_all
  have r: "rect2 B N ?P"
  proof (rule rect2_I[OF lP])
    fix b assume b: "b < B"
    show "length (?P ! b) = N" unfolding Pb[OF b] using len[OF b] by (simp add: log_softmax_def Let_def)
  qed
  have main: "\<forall>b<B. (\<exists>n<N. node_masks ! b ! n = 0) \<longrightarrow>
               xsum (map xexp (?P ! b)) = Fin 1 \<and>
               (\<forall>n<N. node_masks ! b ! n = 1 \<longrightarrow> xexp (?P ! b ! n) = Fin 0)"
  proof (intro allI impI)
    fix b assume b: "b < B" and ex: "\<exists>n<N. node_masks ! b ! n = 0"
    have binb: "\<forall>n<N. node_masks ! b ! n = 0 \<or> node_masks ! b ! n = 1" using bin b by simp
    note ml = masked_logits[OF len[OF b] binb]
    from ex obtain n where n: "n < N" "node_masks ! b ! n = 0" by blast
    then have "?logits b ! n = Fin (ops ! b ! n)" using ml(3) by simp
    then have some: "Fin (ops ! b ! n) \<in> set (?logits b)"
      using n(1) ml(4) by (metis nth_mem)
    note ls = log_softmax_probs[OF ml(1) some]
    have masked: "\<forall>n<N. node_masks ! b ! n = 1 \<longrightarrow> xexp (log_softmax (?logits b) ! n) = Fin 0"
    proof (intro allI impI)
      fix k assume k: "k < N" "node_masks ! b ! k = 1"
      have "?logits b ! k = NInf" using ml(2) k by blast
      moreover have "k < length (?logits b)" unfolding ml(4) by (rule k(1))
      ultimately show "xexp (log_softmax (?logits b) ! k) = Fin 0" using ls(3) by blast
    qed
    show "xsum (map xexp (?P ! b)) = Fin 1 \<and>
               (\<forall>n<N. node_masks ! b ! n = 1 \<longrightarrow> xexp (?P ! b ! n) = Fin 0)"
      unfolding Pb[OF b] using ls(1) masked by blast
  qed
  show ?thesis using eq r main by blast
qed

text \<open>
  An example all of whose nodes are masked: every score is \<open>0 + log 0\<close>, minus infinity,
  the maximum that the log-softmax subtracts is minus infinity as well, and the result is
  NaN, whose exponential is neither 0 nor part of a sum that is 1.
\<close>

theorem compute_goal_probs_all_masked:
  "compute_goal_probs example_gc [[1]] [[[1]]] [[1]] = Inr [[NaN]]"
  by (simp add: compute_goal_probs_def example_gc_def shape1_def cat2_def bind_err_def
      masked_select_blocks_def bdim_def expand_def select_rows_def masked_scatter3_def
      count_true_def scatter0_def log_softmax_def xmax_list_def xsub_def xsum_def)

lemma compute_goal_probs_example:
  "compute_goal_probs example_gc [[1]] [[[1], [2]]] [[0, 1]] = Inr [[Fin 0, NInf]]"
  by (simp add: compute_goal_probs_def example_gc_def shape1_def cat2_def bind_err_def
      masked_select_blocks_def bdim_def expand_def select_rows_def masked_scatter3_def
      count_true_def scatter0_def log_softmax_def xmax_list_def xsub_def xsum_def
      goal_header_def linear_apply_def leaky_relu_def)

text \<open>
  The theorem at one example with a valid and a masked node.
\<close>

theorem compute_goal_probs_normalised_witness:
  "rect2 1 1 [[1 :: real]] \<and> rect3 1 2 1 [[[1], [2 :: real]]] \<and> rect2 1 2 [[0, 1 :: real]] \<and>
   linear_ok (goal_h1 example_gc) (1 + 1) 1 \<and> linear_ok (goal_h2 example_gc) 1 1 \<and>
   linear_ok (goal_op example_gc) 1 1 \<and>
   compute_goal_probs example_gc [[1]] [[[1], [2]]] [[0, 1]] = Inr [[Fin 0, NInf]] \<and>
   xsum (map xexp [Fin 0, NInf]) = Fin 1 \<and> xexp NInf = Fin 0"
proof -
  have h1: "rect2 1 1 [[1 :: real]]" by (simp add: rect2_def)
  have h2: "rect3 1 2 1 [[[1], [2 :: real]]]" by (simp add: rect3_def rect2_def)
  have h3: "rect2 1 2 [[0, 1 :: real]]" by (simp add: rect2_def)
  have l1: "linear_ok (goal_h1 example_gc) (1 + 1) 1"
    and l2: "linear_ok (goal_h2 example_gc) 1 1" and l3: "linear_ok (goal_op example_gc) 1 1"
    by (simp_all add: linear_ok_def example_gc_def rect2_def)
  have bin: "\<forall>b<1. \<forall>n<2. [[0, 1 :: real]] ! b ! n = 0 \<or> [[0, 1 :: real]] ! b ! n = 1"
    by (simp add: all_less_2)
  from compute_goal_probs_normalised[OF h1 h2 h3 l1 l2 l3 bin]
  show ?thesis using h1 h2 h3 l1 l2 l3 unfolding compute_goal_probs_example
    by (auto simp: all_less_2)
qed

lemma py_index_goal_position:
  "- int n \<le> g \<Longrightarrow> g < int n \<Longrightarrow> py_index n g = Inr (goal_position n g)"
  by (simp add: py_index_def goal_position_def Let_def)

lemma map_err_map: "\<forall>x\<in>set xs. f x = Inr (g x) \<Longrightarrow> map_err f xs = Inr (map g xs)"
  by (induction xs) simp_all

lemma map_err_map_map:
  "\<forall>x\<in>set xs. f (h x) = Inr (g x) \<Longrightarrow> map_err f (map h xs) = Inr (map g xs)"
  by (induction xs) simp_all

lemma map_err_replicate: "f x = Inr y \<Longrightarrow> map_err f (replicate n x) = Inr (replicate n y)"
  using map_err_map[of "replicate n x" f "\<lambda>_. y"] by simp

lemma select_goals_pretrain:
  assumes "pre_train gc" and "training gc"
    and "enc_node_seq_gt e = Some gt" and "list_all (\<lambda>row. row \<noteq> []) gt"
  shows "select_goals gc sampler e log_probs rng =
           (Inr (map (\<lambda>row. replicate (num_samples gc)
                     (long (last row) - int (shape1 (combined_masks e)))) gt), rng)"
  using assms by (simp add: select_goals_def Let_def last_column_def bind_err_def comp_def)

lemma gather_forced_goals:
  assumes c: "rect2 B N node_encodings" and lg: "length gt = B"
    and rng: "\<forall>b<B. - int N \<le> G (gt ! b) \<and> G (gt ! b) < int N"
  shows "gather_goals node_encodings (map (replicate S) [0..<B])
           (map (\<lambda>row. replicate S (G row)) gt) =
         Inr (map (\<lambda>b. replicate S (node_encodings ! b ! goal_position N (G (gt ! b)))) [0..<B])"
proof -
  let ?bi = "map (replicate S) [0..<B]" and ?go = "map (\<lambda>row. replicate S (G row)) gt"
  let ?f = "\<lambda>(bs, gs). map_err (\<lambda>(bi, g). lookup_goal node_encodings bi g)
                     (zip (expand (shape1 ?go) bs) (expand (shape1 ?go) gs))"
  have lc: "length node_encodings = B" using c by (simp add: rect2_def)
  have sh: "shape1 ?bi = shape1 ?go" using lg by (cases gt; cases B) (auto simp: shape1_def upt_rec)
  have shS: "0 < B \<Longrightarrow> shape1 ?go = S" using lg by (cases gt) (auto simp: shape1_def)
  have z: "zip ?bi ?go = map (\<lambda>b. (replicate S b, replicate S (G (gt ! b)))) [0..<B]"
    by (rule nth_equalityI) (simp_all add: lg)
  have each: "\<forall>b\<in>set [0..<B]. ?f (replicate S b, replicate S (G (gt ! b))) =
        Inr (replicate S (node_encodings ! b ! goal_position N (G (gt ! b))))"
  proof
    fix b assume "b \<in> set [0..<B]"
    then have b: "b < B" by simp
    then have n: "shape1 ?go = S" using shS by simp
    have "lookup_goal node_encodings b (G (gt ! b)) =
            Inr (node_encodings ! b ! goal_position N (G (gt ! b)))"
      using b rng py_index_goal_position[of N "G (gt ! b)"]
      by (simp add: lookup_goal_def lc rect2_nth[OF c] bind_err_def)
    then have "map_err (\<lambda>(bi, g). lookup_goal node_encodings bi g)
                 (replicate S (b, G (gt ! b))) =
               Inr (replicate S (node_encodings ! b ! goal_position N (G (gt ! b))))"
      by (intro map_err_replicate) simp
    then show "?f (replicate S b, replicate S (G (gt ! b))) =
        Inr (replicate S (node_encodings ! b ! goal_position N (G (gt ! b))))"
      by (simp add: n expand_same zip_replicate)
  qed
  have "map_err ?f (zip ?bi ?go) =
          Inr (map (\<lambda>b. replicate S (node_encodings ! b ! goal_position N (G (gt ! b)))) [0..<B])"
    unfolding z
    by (rule map_err_map_map[where f = ?f
          and h = "\<lambda>b. (replicate S b, replicate S (G (gt ! b)))"
          and g = "\<lambda>b. replicate S (node_encodings ! b ! goal_position N (G (gt ! b)))"])
       (rule each)
  then show ?thesis
    by (simp add: gather_goals_def sh bdim_same lg expand_same)
qed

lemma cat2_samples:
  assumes "length agg = B"
  shows "cat2 (map (replicate S) agg) (map (\<lambda>b. replicate S (ge b)) [0..<B]) =
           Inr (map (\<lambda>b. replicate S (agg ! b @ ge b)) [0..<B])"
proof -
  have l: "map length (map (replicate S) agg) = map length (map (\<lambda>b. replicate S (ge b)) [0..<B])"
    by (rule nth_equalityI) (simp_all add: assms)
  have "map2 (map2 (@)) (map (replicate S) agg) (map (\<lambda>b. replicate S (ge b)) [0..<B])
          = map (\<lambda>b. replicate S (agg ! b @ ge b)) [0..<B]"
    by (rule nth_equalityI) (simp_all add: assms zip_replicate)
  then show ?thesis using l by (simp add: cat2_def)
qed

text \<open>
  Claim C2. With the pre-training flag set and the module in training mode, the goals of
  every example are the last entry of its row of \<open>node_seq_gt\<close>, cast to an integer, minus
  \<open>max_nodes\<close>, repeated \<open>num_samples\<close> times, and the forward pass returns, for every
  sample, the aggregated context of the example followed by the encoding of the node at
  that index. Nothing is drawn: the result does not mention the sampler, and the random
  state comes back unchanged.
\<close>

theorem forward_pretrain_goals:
  assumes "pre_train gc" and "training gc"
    and "enc_node_seq_gt e = Some gt" and "list_all (\<lambda>row. row \<noteq> []) gt"
    and "compute_goal_probs gc (target_agent_encoding e) (combined e) (combined_masks e)
           = Inr log_probs"
    and "global_attention gc e = Inr agg"
    and "rect2 B N (combined e)" and "rect2 B N (combined_masks e)"
    and "length agg = B" and "length gt = B"
    and "\<forall>b<B. - int N \<le> long (last (gt ! b)) - int N \<and> long (last (gt ! b)) - int N < int N"
  shows "select_goals gc sampler e log_probs rng =
           (Inr (map (\<lambda>row. replicate (num_samples gc) (long (last row) - int N)) gt), rng) \<and>
         goal_conditioned_forward gc sampler e rng =
           (Inr \<lparr>agg_encoding =
                   map (\<lambda>b. replicate (num_samples gc)
                          (agg ! b @ combined e ! b !
                             goal_position N (long (last (gt ! b)) - int N))) [0..<B],
                 goal_log_probs = log_probs\<rparr>, rng)"
proof -
  let ?S = "num_samples gc"
  let ?G = "\<lambda>row. long (last row) - int N"
  have goals: "map (\<lambda>row. replicate ?S (long (last row) - int (shape1 (combined_masks e)))) gt
             = map (\<lambda>row. replicate ?S (?G row)) gt"
  proof (cases "B = 0")
    case True then show ?thesis using assms(10) by simp
  next
    case False
    then have "shape1 (combined_masks e) = N" using rect2_shape1[OF assms(8)] by simp
    then show ?thesis by simp
  qed
  have sg: "select_goals gc sampler e log_probs rng =
              (Inr (map (\<lambda>row. replicate ?S (?G row)) gt), rng)"
    using select_goals_pretrain[OF assms(1-4), of sampler log_probs rng] goals by simp
  have ga: "gather_goals (combined e) (map (replicate ?S) [0..<B])
              (map (\<lambda>row. replicate ?S (?G row)) gt) =
            Inr (map (\<lambda>b. replicate ?S (combined e ! b ! goal_position N (?G (gt ! b)))) [0..<B])"
    by (rule gather_forced_goals[OF assms(7,10)]) (use assms(11) in simp)
  have ct: "cat2 (map (replicate ?S) agg)
              (map (\<lambda>b. replicate ?S (combined e ! b ! goal_position N (?G (gt ! b)))) [0..<B]) =
            Inr (map (\<lambda>b. replicate ?S
                        (agg ! b @ combined e ! b ! goal_position N (?G (gt ! b)))) [0..<B])"
    by (rule cat2_samples[OF assms(9)])
  have fw: "goal_conditioned_forward gc sampler e rng =
           (Inr \<lparr>agg_encoding =
                   map (\<lambda>b. replicate ?S
                          (agg ! b @ combined e ! b ! goal_position N (?G (gt ! b)))) [0..<B],
                 goal_log_probs = log_probs\<rparr>, rng)"
    by (simp add: goal_conditioned_forward_def assms(5,6,9) sg bind_err_def Let_def ga ct)
  show ?thesis using sg fw by simp
qed

text \<open>
  Claim C8. With the pre-training flag set and the module in training mode, a dictionary
  of encodings without the key \<open>node_seq_gt\<close> makes the forward pass raise: when the goal
  probabilities have been computed, the error is the KeyError of the lookup itself.
\<close>

theorem forward_missing_node_seq_gt:
  assumes "pre_train gc" and "training gc" and "enc_node_seq_gt e = None"
  shows "(\<exists>err. goal_conditioned_forward gc sampler e rng = (Inl err, rng)) \<and>
         (\<forall>lp. compute_goal_probs gc (target_agent_encoding e) (combined e) (combined_masks e) = Inr lp
            \<longrightarrow> goal_conditioned_forward gc sampler e rng = (Inl (KeyError ''node_seq_gt''), rng))"
proof -
  have sg: "select_goals gc sampler e lp rng = (Inl (KeyError ''node_seq_gt''), rng)" for lp
    using assms by (simp add: select_goals_def Let_def)
  show ?thesis
    by (cases "compute_goal_probs gc (target_agent_encoding e) (combined e) (combined_masks e)")
       (simp_all add: goal_conditioned_forward_def sg)
qed

text \<open>
  The theorem at one example with two nodes whose ground-truth sequence ends in 3, with
  two samplers and random states that differ.
\<close>

theorem forward_pretrain_goals_witness:
  "pre_train example_gc \<and> training example_gc \<and>
   list_all (\<lambda>row. row \<noteq> []) [[2, 3 :: real]] \<and>
   compute_goal_probs example_gc [[1]] [[[1], [2]]] [[0, 1]] = Inr [[Fin 0, NInf]] \<and>
   rect2 1 2 [[[1], [2 :: real]]] \<and> rect2 1 2 [[0, 1 :: real]] \<and>
   select_goals example_gc (\<lambda>r p. (Inl ValueError, Suc r))
     \<lparr>target_agent_encoding = [[1]], combined = [[[1], [2]]],
      combined_masks = [[0, 1]], enc_init_node = Some [[0]], enc_node_seq_gt = Some [[2, 3]],
      enc_s_next = None, enc_edge_type = None\<rparr> [[Fin 0, NInf]] (0::nat) = (Inr [[1, 1]], 0) \<and>
   goal_conditioned_forward example_gc (\<lambda>r p. (Inl ValueError, Suc r))
     \<lparr>target_agent_encoding = [[1]], combined = [[[1], [2]]],
      combined_masks = [[0, 1]], enc_init_node = Some [[0]], enc_node_seq_gt = Some [[2, 3]],
      enc_s_next = None, enc_edge_type = None\<rparr> (0::nat) =
   (Inr \<lparr>agg_encoding = [[[1, 2], [1, 2]]], goal_log_probs = [[Fin 0, NInf]]\<rparr>, 0)"
proof -
  let ?e = "\<lparr>target_agent_encoding = [[1]], combined = [[[1], [2]]],
      combined_masks = [[0, 1]], enc_init_node = Some [[0]], enc_node_seq_gt = Some [[2, 3]],
      enc_s_next = None, enc_edge_type = None\<rparr>"
  have a: "pre_train example_gc" "training example_gc" by (simp_all add: example_gc_def)
  have b: "enc_node_seq_gt ?e = Some [[2, 3]]" by simp
  have c: "list_all (\<lambda>row. row \<noteq> []) [[2, 3 :: real]]" by simp
  have d: "compute_goal_probs example_gc (target_agent_encoding ?e) (combined ?e)
             (combined_masks ?e) = Inr [[Fin 0, NInf]]"
    using compute_goal_probs_example by simp
  have g: "global_attention example_gc ?e = Inr [[1]]" by (simp add: example_gc_def)
  have r1: "rect2 1 2 (combined ?e)" and r2: "rect2 1 2 (combined_masks ?e)"
    by (simp_all add: rect2_def)
  have l: "length [[1 :: real]] = 1" "length [[2, 3 :: real]] = 1" by simp_all
  have i: "\<forall>b<1. - int 2 \<le> long (last ([[2, 3 :: real]] ! b)) - int 2 \<and>
                 long (last ([[2, 3 :: real]] ! b)) - int 2 < int 2"
    by (simp add: long_def)
  have v: "map (\<lambda>b. replicate (num_samples example_gc)
                          ([[1 :: real]] ! b @ combined ?e ! b !
                             goal_position 2 (long (last ([[2, 3]] ! b)) - int 2))) [0..<1]
           = [[[1, 2], [1, 2]]]"
    by (simp add: example_gc_def goal_position_def long_def numeral_2_eq_2)
  have w: "map (\<lambda>row. replicate (num_samples example_gc) (long (last row) - int 2)) [[2, 3 :: real]]
           = [[1, 1]]"
    by (simp add: example_gc_def long_def numeral_2_eq_2)
  from forward_pretrain_goals[OF a b c d g r1 r2 l i, of "\<lambda>r p. (Inl ValueError, Suc r)" 0]
  show ?thesis using a c d r1 r2 unfolding v w by simp
qed

text \<open>
  The theorem at one example with two nodes and no ground-truth sequence.
\<close>

theorem forward_missing_node_seq_gt_witness:
  "pre_train example_gc \<and> training example_gc \<and>
   enc_node_seq_gt \<lparr>target_agent_encoding = [[1]], combined = [[[1], [2]]],
      combined_masks = [[0, 1]], enc_init_node = None, enc_node_seq_gt = None,
      enc_s_next = None, enc_edge_type = None\<rparr> = None \<and>
   compute_goal_probs example_gc [[1]] [[[1], [2]]] [[0, 1]] = Inr [[Fin 0, NInf]] \<and>
   goal_conditioned_forward example_gc (\<lambda>r p. (Inr [[0, 0]], Suc r))
      \<lparr>target_agent_encoding = [[1]], combined = [[[1], [2]]],
      combined_masks = [[0, 1]], enc_init_node = None, enc_node_seq_gt = None,
      enc_s_next = None, enc_edge_type = None\<rparr> (0::nat) = (Inl (KeyError ''node_seq_gt''), 0)"
proof -
  let ?e = "\<lparr>target_agent_encoding = [[1]], combined = [[[1], [2]]],
      combined_masks = [[0, 1]], enc_init_node = None, enc_node_seq_gt = None,
      enc_s_next = None, enc_edge_type = None\<rparr>"
  have a: "pre_train example_gc" "training example_gc" by (simp_all add: example_gc_def)
  have b: "enc_node_seq_gt ?e = None" by simp
  from forward_missing_node_seq_gt[OF a b, of "\<lambda>r p. (Inr [[0, 0]], Suc r)" 0]
  show ?thesis using a compute_goal_probs_example by simp
qed

subsection \<open>The encoder\<close>

lemma bind_err_InrE:
  assumes "bind_err r f = Inr y"
  obtains x where "r = Inr x" "f x = Inr y"
  using assms by (cases r) (auto simp: bind_err_def)

lemma lookup_key_Inr: "lookup_key k v = Inr x \<Longrightarrow> v = Some x"
  by (cases v) (auto simp: lookup_key_def)

lemma pgp_encoder_forward_stages:
  assumes "pgp_encoder_forward enc inp = Inr (out, inp')"
  shows "\<exists>ne nm s e s' A.
           lane_node_encoding enc inp = Inr ne \<and>
           node_masks_of (lane_node_masks inp) = Inr nm \<and> combined_masks out = nm \<and>
           in_s_next inp = Some s \<and> in_edge_type inp = Some e \<and>
           build_adj_mat s e = Inr (s', A) \<and> inp' = inp\<lparr>in_s_next := Some s'\<rparr> \<and>
           (in_init_node inp \<noteq> None \<longrightarrow>
              enc_s_next out = Some s' \<and> enc_edge_type out = Some e \<and>
              enc_init_node out = in_init_node inp \<and> enc_node_seq_gt out = in_node_seq_gt inp)"
  using assms unfolding pgp_encoder_forward_def Let_def
  by (auto elim!: bind_err_InrE dest!: lookup_key_Inr simp: case_prod_beta split: if_splits)

lemma scatter_entities_zero:
  "\<exists>R s'. scatter_list (scatter_list scatter0) (map (replicate H) ms)
             (map (\<lambda>m. replicate H z) ms) src = (R, s') \<and>
          length R = length ms \<and> (\<forall>i<length ms. \<not> ms ! i \<longrightarrow> R ! i = replicate H z)"
proof (induction ms arbitrary: src)
  case Nil
  then show ?case by simp
next
  case (Cons m ms)
  obtain x' s1 where f: "scatter_list scatter0 (replicate H m) (replicate H z) src = (x', s1)"
    by (cases "scatter_list scatter0 (replicate H m) (replicate H z) src") auto
  have x': "\<not> m \<Longrightarrow> x' = replicate H z"
    using f scatter_row_false[of "replicate H z" H src] by simp
  from Cons[of s1] obtain R s' where
    R: "scatter_list (scatter_list scatter0) (map (replicate H) ms)
             (map (\<lambda>m. replicate H z) ms) s1 = (R, s')"
       "length R = length ms" "\<forall>i<length ms. \<not> ms ! i \<longrightarrow> R ! i = replicate H z"
    by blast
  have eq: "scatter_list (scatter_list scatter0) (map (replicate H) (m # ms))
             (map (\<lambda>m. replicate H z) (m # ms)) src = (x' # R, s')"
    using f R(1) by simp
  have p: "\<forall>i<length (m # ms). \<not> (m # ms) ! i \<longrightarrow> (x' # R) ! i = replicate H z"
    using x' R(3) by (auto simp: nth_Cons split: nat.splits)
  show ?case using eq p R(2) by (intro exI[of _ "x' # R"] exI[of _ s']) simp
qed

lemma scatter_batch_zero:
  "\<exists>RR s'. scatter_list (scatter_list (scatter_list scatter0)) (map (map (replicate H)) mss)
             (map (map (\<lambda>m. replicate H z)) mss) src = (RR, s') \<and>
          length RR = length mss \<and>
          (\<forall>b<length mss. length (RR ! b) = length (mss ! b) \<and>
              (\<forall>i<length (mss ! b). \<not> mss ! b ! i \<longrightarrow> RR ! b ! i = replicate H z))"
proof (induction mss arbitrary: src)
  case Nil
  then show ?case by simp
next
  case (Cons ms mss)
  from scatter_entities_zero[of H ms z src] obtain R s1 where
    R: "scatter_list (scatter_list scatter0) (map (replicate H) ms)
             (map (\<lambda>m. replicate H z) ms) src = (R, s1)"
       "length R = length ms" "\<forall>i<length ms. \<not> ms ! i \<longrightarrow> R ! i = replicate H z"
    by blast
  from Cons[of s1] obtain RR s' where
    RR: "scatter_list (scatter_list (scatter_list scatter0)) (map (map (replicate H)) mss)
             (map (map (\<lambda>m. replicate H z)) mss) s1 = (RR, s')"
        "length RR = length mss"
        "\<forall>b<length mss. length (RR ! b) = length (mss ! b) \<and>
              (\<forall>i<length (mss ! b). \<not> mss ! b ! i \<longrightarrow> RR ! b ! i = replicate H z)"
    by blast
  have eq: "scatter_list (scatter_list (scatter_list scatter0)) (map (map (replicate H)) (ms # mss))
             (map (map (\<lambda>m. replicate H z)) (ms # mss)) src = (R # RR, s')"
    using R(1) RR(1) by simp
  have p: "\<forall>b<length (ms # mss). length ((R # RR) ! b) = length ((ms # mss) ! b) \<and>
              (\<forall>i<length ((ms # mss) ! b). \<not> (ms # mss) ! b ! i \<longrightarrow>
                   (R # RR) ! b ! i = replicate H z)"
    using R(2,3) RR(3) by (auto simp: nth_Cons split: nat.splits)
  show ?case using eq p RR(2) by (intro exI[of _ "R # RR"] exI[of _ s']) simp
qed

lemma variable_size_gru_encode_zero_if_returns:
  assumes r: "variable_size_gru_encode feat_embedding masks g = Inr ne"
    and f: "rect2 B M feat_embedding" and m: "rect4 B M T F masks" and F: "0 < F"
  shows "length ne = B \<and>
         (\<forall>b<B. length (ne ! b) = M \<and>
            (\<forall>i<M. \<not> valid_entities masks ! b ! i \<longrightarrow> list_all (\<lambda>x. x = 0) (ne ! b ! i)))"
proof -
  let ?m0 = "map (map (map hd)) masks"
  let ?v = "valid_entities masks"
  have s0: "select0 masks = Inr ?m0" by (rule select0_ok[OF m F])
  have v2: "rect2 B M ?v" by (rule rect2_valid_entities[OF m])
  have lv: "length ?v = B" "\<And>b. b < B \<Longrightarrow> length (?v ! b) = M"
    using v2 by (simp_all add: rect2_def list_all_length)
  have sel: "masked_select_blocks feat_embedding (masks_for_batching ?m0) =
             Inr (compact_rows feat_embedding ?v)"
    using masked_select_blocks_ok[OF f v2] by (simp add: valid_entities_def compact_rows_def)
  show ?thesis
  proof (cases "compact_lens masks = []")
    case True
    have lf: "length feat_embedding = B" using f by (simp add: rect2_def)
    have shp: "replicate B (replicate (shape1 feat_embedding) (replicate (hidden_size g) (0::real)))
             = replicate B (replicate M (replicate (hidden_size g) 0))"
      using rect2_shape1[OF f] by (cases "B = 0") simp_all
    have "ne = replicate B (replicate M (replicate (hidden_size g) 0))"
      using r True by (simp add: variable_size_gru_encode_def s0 sel Let_def lf shp
          compact_lens_def)
    then show ?thesis by (simp add: list_all_iff)
  next
    case False
    then obtain h where h: "run g (compact_rows feat_embedding ?v) (compact_lens masks) = Inr h"
      and sc: "masked_scatter3 (map (map (map (\<lambda>_. 0))) (map (map (replicate (last_dim g h))) ?v))
                 (map (map (replicate (last_dim g h))) ?v) (concat h) = Inr ne"
      using r
      by (auto simp: variable_size_gru_encode_def s0 sel Let_def compact_lens_def
          valid_entities_def split: sum.splits)
    let ?H = "last_dim g h"
    have self: "map (map (map (\<lambda>_. 0::real))) (map (map (replicate ?H)) ?v)
              = map (map (\<lambda>m. replicate ?H 0)) ?v"
      by (simp add: comp_def)
    from scatter_batch_zero[of ?H ?v "0::real" "concat h"] obtain RR s' where
      RR: "scatter_list (scatter_list (scatter_list scatter0)) (map (map (replicate ?H)) ?v)
             (map (map (\<lambda>m. replicate ?H 0)) ?v) (concat h) = (RR, s')"
          "length RR = length ?v"
          "\<forall>b<length ?v. length (RR ! b) = length (?v ! b) \<and>
              (\<forall>i<length (?v ! b). \<not> ?v ! b ! i \<longrightarrow> RR ! b ! i = replicate ?H 0)"
      by blast
    have "ne = RR"
      using sc RR(1) unfolding self by (simp add: masked_scatter3_def split: if_splits)
    then show ?thesis using RR(2,3) lv by (auto simp: list_all_iff)
  qed
qed

lemma map_err_Inr:
  "map_err f xs = Inr ys \<Longrightarrow>
   length ys = length xs \<and> (\<forall>i<length xs. f (xs ! i) = Inr (ys ! i))"
proof (induction xs arbitrary: ys)
  case Nil
  then show ?case by simp
next
  case (Cons x xs)
  then obtain y ys' where y: "f x = Inr y" "map_err f xs = Inr ys'" "ys = y # ys'"
    by (auto split: sum.splits)
  from Cons.IH[OF y(2)] have "length ys' = length xs" "\<forall>i<length xs. f (xs ! i) = Inr (ys' ! i)"
    by auto
  then show ?case using y by (auto simp: nth_Cons split: nat.splits)
qed

lemma linear4_outer_shape:
  assumes "linear4 l x = Inr y" and x: "rect2 B M x"
  shows "rect2 B M y"
proof -
  from assms(1) have o: "length y = length x"
      "\<forall>b<length x. map_err (map_err (linear_apply l)) (x ! b) = Inr (y ! b)"
    using map_err_Inr[of "map_err (map_err (linear_apply l))" x y] by (simp_all add: linear4_def)
  have lx: "length x = B" using x by (simp add: rect2_def)
  show ?thesis
  proof (rule rect2_I)
    show "length y = B" using o(1) lx by simp
  next
    fix b assume b: "b < B"
    then have "map_err (map_err (linear_apply l)) (x ! b) = Inr (y ! b)" using o(2) lx by simp
    then have "length (y ! b) = length (x ! b)" using map_err_Inr by blast
    then show "length (y ! b) = M" using rect2_nth[OF x b] by simp
  qed
qed

lemma node_masks_of_char:
  assumes m: "rect4 B N T F masks" and F: "0 < F"
  shows "\<exists>nm. node_masks_of masks = Inr nm \<and> rect2 B N nm \<and>
           (\<forall>b<B. \<forall>n<N. nm ! b ! n = (if valid_entities masks ! b ! n then 0 else 1))"
proof -
  let ?nm = "map (map (\<lambda>v. if \<not> v then 1 else 0)) (valid_entities masks)"
  have v2: "rect2 B N (valid_entities masks)" by (rule rect2_valid_entities[OF m])
  have eq: "node_masks_of masks = Inr ?nm"
    by (simp add: node_masks_of_def select0_ok[OF m F] bind_err_Inr valid_entities_def)
  have r: "rect2 B N ?nm" using v2 by (simp add: rect2_def list_all_length)
  have v: "\<forall>b<B. \<forall>n<N. ?nm ! b ! n = (if valid_entities masks ! b ! n then 0 else 1)"
    using v2 by (simp add: rect2_def list_all_length)
  show ?thesis using eq r v by blast
qed

lemma lane_node_encoding_zero_if_returns:
  assumes r: "lane_node_encoding enc inp = Inr ne"
    and f: "rect4 B N T D (lane_node_feats inp)" and m: "rect4 B N T F (lane_node_masks inp)"
    and F: "0 < F"
  shows "length ne = B \<and>
         (\<forall>b<B. length (ne ! b) = N \<and>
            (\<forall>n<N. \<not> valid_entities (lane_node_masks inp) ! b ! n \<longrightarrow>
                 list_all (\<lambda>x. x = 0) (ne ! b ! n)))"
proof -
  from r obtain emb where emb: "linear4 (node_emb enc) (lane_node_feats inp) = Inr emb"
    and e: "variable_size_gru_encode (map (map (map (map leaky_relu))) emb) (lane_node_masks inp)
       (node_encoder enc) = Inr ne"
    unfolding lane_node_encoding_def by (elim bind_err_InrE)
  have "rect2 B N emb" by (rule linear4_outer_shape[OF emb rect4_rect2[OF f]])
  then have "rect2 B N (map (map (map (map leaky_relu))) emb)"
    by (simp add: rect2_def list_all_length)
  from variable_size_gru_encode_zero_if_returns[OF e this m F] show ?thesis .
qed

lemma build_adj_mat_s_next:
  assumes s: "rect3 B N E s_next" and e: "rect3 B N E edge_type"
    and r: "build_adj_mat s_next edge_type = Inr (s', A)"
  shows "rect3 B N E s' \<and>
     (\<forall>b<B. \<forall>i<N. \<forall>k<E. s' ! b ! i ! k =
          (if edge_type ! b ! i ! k = 0 then real i else s_next ! b ! i ! k))"
proof -
  let ?N = "shape1 s_next" and ?E = "shape2 s_next"
  have lB: "length s_next = B" using s by (simp add: rect3_def)
  from r have aw: "assign_where s_next (is_no_edge edge_type) (dummy_vals B ?N ?E) = Inr s'"
    by (auto simp: build_adj_mat_def Let_def lB split: sum.splits)
  show ?thesis
  proof (cases "B = 0 \<or> N = 0")
    case True
    show ?thesis
    proof (cases "B = 0")
      case B0: True
      then have "s_next = []" "edge_type = []" using s e by (simp_all add: rect3_def)
      then have "s' = []"
        using aw by (simp add: assign_where_def same_shape3_def is_no_edge_def dummy_vals_def
            src_indices_def B0)
      then show ?thesis using B0 by (simp add: rect3_def)
    next
      case False
      then have N0: "N = 0" using True by simp
      have s0: "rect3 B 0 0 s_next" and e0: "rect3 B 0 0 edge_type"
        using s e N0 by (auto intro: rect3_no_nodes)
      have sh: "?N = 0" "?E = 0"
        using s0 by (simp_all add: rect3_no_nodes_shape1 rect3_no_nodes_shape2)
      from assign_where_ok[OF s0 rect3_is_no_edge[OF e0] rect3_dummy_vals] aw
      have "rect3 B 0 0 s'" unfolding sh by auto
      then have "rect3 B N E s'" using N0 by (auto intro: rect3_no_nodes)
      then show ?thesis using N0 by simp
    qed
  next
    case False
    then have sh: "?N = N" "?E = E" using rect3_shape1[OF s] rect3_shape2[OF s] by simp_all
    from assign_where_ok[OF s rect3_is_no_edge[OF e] rect3_dummy_vals] aw
    have s': "rect3 B N E s'"
      "\<forall>b<B. \<forall>i<N. \<forall>k<E. s' ! b ! i ! k =
         (if is_no_edge edge_type ! b ! i ! k then dummy_vals B N E ! b ! i ! k
          else s_next ! b ! i ! k)"
      unfolding sh by auto
    have lE: "length edge_type = B" using e by (simp add: rect3_def)
    have "\<forall>b<B. \<forall>i<N. \<forall>k<E. s' ! b ! i ! k =
          (if edge_type ! b ! i ! k = 0 then real i else s_next ! b ! i ! k)"
      using s'(2) by (simp add: dummy_vals_nth is_no_edge_def lE rect3_len1[OF e] rect3_len2[OF e])
    then show ?thesis using s'(1) by blast
  qed
qed

lemmas encode_defs = variable_size_gru_encode_def select0_def masks_for_batching_def
  masked_select_blocks_def bdim_def shape1_def expand_def select_rows_def seq_lens_def
  seq_lens_batched_def example_gru_def last_dim_def masked_scatter3_def count_true_def
  scatter0_def

lemma lane_node_encoding_example:
  "lane_node_encoding example_encoder example_inputs = Inr [[[3], [0]]]"
  by (simp add: lane_node_encoding_def example_encoder_def example_inputs_def unit_linear_def
      linear4_def linear_apply_def leaky_relu_def bind_err_def encode_defs)

lemma nbr_encoding_example:
  "nbr_encoding example_encoder 0 (vehicles example_inputs) (vehicle_masks example_inputs)
     = Inr [[[2]]]"
  "nbr_encoding example_encoder 1 (pedestrians example_inputs) (pedestrian_masks example_inputs)
     = Inr [[[3]]]"
  by (simp_all add: nbr_encoding_def example_encoder_def example_inputs_def append_flag_def
      linear4_def linear_apply_def leaky_relu_def bind_err_def encode_defs)

lemma build_adj_mat_example:
  "build_adj_mat [[[1, 0], [0, 0]]] [[[1, 0], [0, 0]]] =
     Inr ([[[1, 0], [1, 1]]], [[[True, True], [True, True]]])"
  by (simp add: build_adj_mat_def shape1_def shape2_def identity_adj_def eye_def assign_where_def
      same_shape3_def is_no_edge_def dummy_vals_def src_indices_def batch_indices_def
      edge_triples_def put_true_def py_index_def long_def or3_def transpose12_def upt_rec Let_def)

lemma node_masks_of_example:
  "node_masks_of (lane_node_masks example_inputs) = Inr [[0, 1]]"
  by (simp add: node_masks_of_def example_inputs_def select0_def masks_for_batching_def
      bind_err_def)

lemma pgp_encoder_forward_example:
  "pgp_encoder_forward example_encoder example_inputs =
     Inr (\<lparr>target_agent_encoding = [[3]], combined = [[[4], [1]]],
           combined_masks = [[0, 1]], enc_init_node = Some [[1, 0]],
           enc_node_seq_gt = Some [[0, 1, 3]],
           enc_s_next = Some [[[1, 0], [1, 1]]],
           enc_edge_type = Some [[[1, 0], [0, 0]]]\<rparr>,
          example_inputs\<lparr>in_s_next := Some [[[1, 0], [1, 1]]]\<rparr>)"
  unfolding pgp_encoder_forward_def lane_node_encoding_example nbr_encoding_example
    node_masks_of_example
  by (simp add: example_encoder_def example_inputs_def unit_linear_def linear3_def
      linear_apply_def leaky_relu_def bind_err_def example_gru_def cat1_def cat2_def
      permute102_def shape1_def lookup_key_def build_adj_mat_example)

text \<open>
  Claim C7, as amended. When the forward pass of the encoder returns, the node mask that
  it returns is 1 exactly at the nodes without a valid pose, and the GRU encoding of the
  lane nodes that it computes first (before the agent-node attention, the mix layer and
  the GAT layers) is the zero vector at every such node. The tensor \<open>combined\<close> is the
  encoding after attention, mix layer and GAT layers, which are applied to every node
  and are not followed by a masking step.
\<close>

theorem pgp_encoder_forward_node_masks:
  assumes "pgp_encoder_forward enc inp = Inr (out, inp')"
    and "rect4 B N T D (lane_node_feats inp)" and "rect4 B N T F (lane_node_masks inp)"
    and "0 < F"
  shows "\<exists>ne. lane_node_encoding enc inp = Inr ne \<and> length ne = B \<and>
           (\<forall>b<B. length (ne ! b) = N \<and>
              (\<forall>n<N. combined_masks out ! b ! n =
                        (if \<exists>t<T. lane_node_masks inp ! b ! n ! t ! 0 = 0 then 0 else 1) \<and>
                      (combined_masks out ! b ! n = 1 \<longrightarrow> list_all (\<lambda>x. x = 0) (ne ! b ! n))))"
proof -
  from pgp_encoder_forward_stages[OF assms(1)] obtain ne nm where
    ne: "lane_node_encoding enc inp = Inr ne"
    and nm: "node_masks_of (lane_node_masks inp) = Inr nm" "combined_masks out = nm"
    by blast
  from node_masks_of_char[OF assms(3,4)] nm(1) have
    v: "\<forall>b<B. \<forall>n<N. nm ! b ! n = (if valid_entities (lane_node_masks inp) ! b ! n then 0 else 1)"
    by auto
  note z = lane_node_encoding_zero_if_returns[OF ne assms(2,3,4)]
  have "\<forall>b<B. length (ne ! b) = N \<and>
              (\<forall>n<N. combined_masks out ! b ! n =
                        (if \<exists>t<T. lane_node_masks inp ! b ! n ! t ! 0 = 0 then 0 else 1) \<and>
                      (combined_masks out ! b ! n = 1 \<longrightarrow> list_all (\<lambda>x. x = 0) (ne ! b ! n)))"
  proof (intro allI impI conjI)
    fix b assume b: "b < B"
    show "length (ne ! b) = N" using z b by blast
    fix n assume n: "n < N"
    have c: "combined_masks out ! b ! n =
               (if valid_entities (lane_node_masks inp) ! b ! n then 0 else 1)"
      using v b n nm(2) by simp
    show "combined_masks out ! b ! n =
            (if \<exists>t<T. lane_node_masks inp ! b ! n ! t ! 0 = 0 then 0 else 1)"
      using c valid_entities_nth[OF assms(3,4) b n] by simp
    assume "combined_masks out ! b ! n = 1"
    then have "\<not> valid_entities (lane_node_masks inp) ! b ! n" using c by (auto split: if_splits)
    then show "list_all (\<lambda>x. x = 0) (ne ! b ! n)" using z b n by blast
  qed
  then show ?thesis using ne z by blast
qed

text \<open>
  The theorem at one example with two lane nodes, the second without a valid pose.
\<close>

theorem pgp_encoder_forward_node_masks_witness:
  "pgp_encoder_forward example_encoder example_inputs =
     Inr (\<lparr>target_agent_encoding = [[3]], combined = [[[4], [1]]],
           combined_masks = [[0, 1]], enc_init_node = Some [[1, 0]],
           enc_node_seq_gt = Some [[0, 1, 3]],
           enc_s_next = Some [[[1, 0], [1, 1]]],
           enc_edge_type = Some [[[1, 0], [0, 0]]]\<rparr>,
          example_inputs\<lparr>in_s_next := Some [[[1, 0], [1, 1]]]\<rparr>) \<and>
   rect4 1 2 2 1 (lane_node_feats example_inputs) \<and>
   rect4 1 2 2 1 (lane_node_masks example_inputs) \<and>
   lane_node_encoding example_encoder example_inputs = Inr [[[3], [0]]] \<and>
   lane_node_masks example_inputs = [[[[0], [0]], [[1], [1]]]]"
proof -
  have h1: "rect4 1 2 2 1 (lane_node_feats example_inputs)"
    and h2: "rect4 1 2 2 1 (lane_node_masks example_inputs)"
    by (simp_all add: example_inputs_def rect4_def rect3_def rect2_def)
  have p: "(0::nat) < 1" by simp
  from pgp_encoder_forward_node_masks[OF pgp_encoder_forward_example h1 h2 p]
  show ?thesis
    using pgp_encoder_forward_example h1 h2 lane_node_encoding_example
    by (simp add: example_inputs_def)
qed

text \<open>
  The same forward pass: node 1 has mask 1 and its entry of \<open>combined\<close> is \<open>[1]\<close>, the
  bias of the mix layer, not the zero vector.
\<close>

theorem pgp_encoder_forward_nonzero_at_masked_node:
  "pgp_encoder_forward example_encoder example_inputs =
     Inr (\<lparr>target_agent_encoding = [[3]], combined = [[[4], [1]]],
           combined_masks = [[0, 1]], enc_init_node = Some [[1, 0]],
           enc_node_seq_gt = Some [[0, 1, 3]],
           enc_s_next = Some [[[1, 0], [1, 1]]],
           enc_edge_type = Some [[[1, 0], [0, 0]]]\<rparr>,
          example_inputs\<lparr>in_s_next := Some [[[1, 0], [1, 1]]]\<rparr>)"
  by (rule pgp_encoder_forward_example)

text \<open>
  Claim C10. \<open>build_adj_mat\<close> overwrites the entries of \<open>s_next\<close> whose edge type is 0
  with the index of their source node, and leaves the other entries as they are. When
  the forward pass of the encoder returns and \<open>init_node\<close> is among the inputs, the
  \<open>s_next\<close> of the encodings is this overwritten tensor, and so is the \<open>s_next\<close> of the
  input dictionary after the call: nothing restores it.
\<close>

theorem pgp_encoder_forward_passes_mutated_s_next:
  assumes "pgp_encoder_forward enc inp = Inr (out, inp')"
    and "in_s_next inp = Some s_next" and "in_edge_type inp = Some edge_type"
    and "rect3 B N E s_next" and "rect3 B N E edge_type"
    and "in_init_node inp \<noteq> None"
  shows "\<exists>s' A. build_adj_mat s_next edge_type = Inr (s', A) \<and>
           enc_s_next out = Some s' \<and> in_s_next inp' = Some s' \<and> rect3 B N E s' \<and>
           (\<forall>b<B. \<forall>i<N. \<forall>k<E. s' ! b ! i ! k =
               (if edge_type ! b ! i ! k = 0 then real i else s_next ! b ! i ! k))"
proof -
  from pgp_encoder_forward_stages[OF assms(1)] assms(2,3,6) obtain s' A where
    b: "build_adj_mat s_next edge_type = Inr (s', A)"
    and o: "enc_s_next out = Some s'" "inp' = inp\<lparr>in_s_next := Some s'\<rparr>"
    by auto
  from build_adj_mat_s_next[OF assms(4,5) b] show ?thesis using b o by auto
qed

text \<open>
  The theorem at one example with two nodes: the slots of node 1 have edge type 0 and
  hold the index 1 after the call.
\<close>

theorem pgp_encoder_forward_passes_mutated_s_next_witness:
  "pgp_encoder_forward example_encoder example_inputs =
     Inr (\<lparr>target_agent_encoding = [[3]], combined = [[[4], [1]]],
           combined_masks = [[0, 1]], enc_init_node = Some [[1, 0]],
           enc_node_seq_gt = Some [[0, 1, 3]],
           enc_s_next = Some [[[1, 0], [1, 1]]],
           enc_edge_type = Some [[[1, 0], [0, 0]]]\<rparr>,
          example_inputs\<lparr>in_s_next := Some [[[1, 0], [1, 1]]]\<rparr>) \<and>
   in_s_next example_inputs = Some [[[1, 0], [0, 0]]] \<and>
   in_edge_type example_inputs = Some [[[1, 0], [0, 0]]] \<and>
   rect3 1 2 2 [[[1, 0], [0, 0 :: real]]] \<and> rect3 1 2 2 [[[1, 0], [0, 0 :: int]]] \<and>
   in_init_node example_inputs \<noteq> None \<and>
   build_adj_mat [[[1, 0], [0, 0]]] [[[1, 0], [0, 0]]] =
     Inr ([[[1, 0], [1, 1]]], [[[True, True], [True, True]]])"
proof -
  have a: "in_s_next example_inputs = Some [[[1, 0], [0, 0]]]"
    and b: "in_edge_type example_inputs = Some [[[1, 0], [0, 0]]]"
    and c: "in_init_node example_inputs \<noteq> None"
    by (simp_all add: example_inputs_def)
  have h1: "rect3 1 2 2 [[[1, 0], [0, 0 :: real]]]" and h2: "rect3 1 2 2 [[[1, 0], [0, 0 :: int]]]"
    by (simp_all add: rect3_def rect2_def)
  from pgp_encoder_forward_passes_mutated_s_next[OF pgp_encoder_forward_example a b h1 h2 c]
  show ?thesis using pgp_encoder_forward_example a b c h1 h2 build_adj_mat_example by simp
qed

end
